theory Spec2Isabelle
  imports Complex_Main "HOL-Library.Word"
begin

section \<open>The OpenSCAD csg tree and its conversion to xcsg\<close>

text \<open>
  A shallow embedding of \<^verbatim>\<open>csg_node\<close> (the tree node of the OpenSCAD \<^verbatim>\<open>.csg\<close>
  reader) and of its member functions. Conventions of the embedding:
  \<^item> a C++ exception is a value \<open>Inl e\<close> of the sum type \<open>error + 'a\<close>; reading through
    an end iterator or a null pointer, which C++ leaves undefined, is the error
    \<open>Undefined_behaviour\<close>, so that every such place is a branch of the model;
    \<open>Unmodelled\<close> marks the one place whose effect is decided by the XML writer alone;
  \<^item> a \<^verbatim>\<open>double\<close> is a \<open>real\<close>. The arithmetic on doubles that decides the control flow
    (the number of segments of a sweep) is rounded to double precision after every
    operation, see \<open>round_double\<close>; the arithmetic that only produces numbers of the
    output (coordinates and angles) is exact. Infinities and NaN are not modelled;
  \<^item> \<^verbatim>\<open>size_t\<close> counters that can wrap are 64-bit words, the others are \<open>nat\<close>; a
    conversion of a \<^verbatim>\<open>size_t\<close> to \<^verbatim>\<open>int\<close> wraps to 32 bits;
  \<^item> the literal value library \<^verbatim>\<open>csg_value\<close>, the XML writer \<^verbatim>\<open>cf_xmlNode\<close> and the
    matrix template \<^verbatim>\<open>csg_matrix\<close> are not part of the sources read here; the first is
    a record of operations over an arbitrary value type, the other two are modelled
    from their use.
\<close>

subsection \<open>Errors\<close>

datatype error =
    Runtime_error string
  | Out_of_range
  | Undefined_behaviour string
  | Unmodelled string

type_synonym 'a result = "error + 'a"

subsection \<open>Collaborators\<close>

text \<open>
  The operations of \<^verbatim>\<open>csg_value\<close> that the node code calls. The value type \<open>'v\<close>
  stays abstract; \<open>v_parse\<close> returns \<open>None\<close> for the null pointer.
\<close>

record 'v csg_value_ops =
  v_parse :: "string \<Rightarrow> nat \<Rightarrow> 'v option"
  v_size :: "'v \<Rightarrow> nat"
  v_get :: "'v \<Rightarrow> nat \<Rightarrow> 'v"
  v_is_vector :: "'v \<Rightarrow> bool"
  v_to_double :: "'v \<Rightarrow> real"
  v_to_int :: "'v \<Rightarrow> int"
  v_to_bool :: "'v \<Rightarrow> bool"
  v_to_string :: "'v \<Rightarrow> string"

text \<open>
  Modelled from the spec: the XML writer \<^verbatim>\<open>cf_xmlNode\<close> is missing from the sources.
  By its interface in the spec, \<^verbatim>\<open>add_child\<close> appends a tagged node and
  \<^verbatim>\<open>add_property\<close> a named property whose value is a string or a number.
\<close>

datatype xml_value = Xml_string string | Xml_number real

datatype cf_xmlNode =
  Xml_node (xml_tag: string) (xml_properties: "(string \<times> xml_value) list")
           (xml_children: "cf_xmlNode list")

text \<open>
  Modelled from the spec: the 4 by 4 matrix template \<^verbatim>\<open>csg_matrix\<close> and
  \<^verbatim>\<open>csg_matrix_mult\<close> are missing from the sources. The spec calls the composition
  "standard matrix multiplication" and the matrix built by the default constructor
  is taken to be the identity, the only reading under which the four entries that
  \<^verbatim>\<open>rotate_extrude\<close> assigns give the rotation the spec and the code comment name.
\<close>

type_synonym csg_matrix = "nat \<Rightarrow> nat \<Rightarrow> real"

definition csg_matrix_default :: csg_matrix where
  "csg_matrix_default = (\<lambda>i j. if i = j then 1 else 0)"

definition csg_matrix_set :: "csg_matrix \<Rightarrow> nat \<Rightarrow> nat \<Rightarrow> real \<Rightarrow> csg_matrix" where
  "csg_matrix_set m i j x = (\<lambda>r c. if r = i \<and> c = j then x else m r c)"

definition csg_matrix_mult :: "csg_matrix \<Rightarrow> csg_matrix \<Rightarrow> csg_matrix" where
  "csg_matrix_mult a b = (\<lambda>i j. a i 0 * b 0 j + a i 1 * b 1 j + a i 2 * b 2 j + a i 3 * b 3 j)"

subsection \<open>The node\<close>

datatype 'v csg_node =
  Csg_node (m_level: int) (m_line_no: nat) (m_func: string)
           (m_par: "string \<Rightarrow> 'v option") (m_children: "'v csg_node list")
           (m_has_matrix: bool) (m_matrix: csg_matrix)

subsection \<open>Strings\<close>

text \<open>\<^verbatim>\<open>std::string::find_first_of\<close> from a start position; \<open>None\<close> is \<^verbatim>\<open>npos\<close>.\<close>

fun find_first_from :: "char list \<Rightarrow> nat \<Rightarrow> string \<Rightarrow> nat option" where
  "find_first_from ds pos [] = None"
| "find_first_from ds pos (c # cs) =
     (if c \<in> set ds then Some pos else find_first_from ds (Suc pos) cs)"

definition find_first_of :: "string \<Rightarrow> char list \<Rightarrow> nat \<Rightarrow> nat option" where
  "find_first_of s ds start = find_first_from ds start (drop start s)"

text \<open>\<^verbatim>\<open>std::to_string\<close> of an unsigned number.\<close>

definition digit_char :: "nat \<Rightarrow> char" where
  "digit_char d = ''0123456789'' ! d"

fun to_string :: "nat \<Rightarrow> string" where
  "to_string n = (if n < 10 then [digit_char n] else to_string (n div 10) @ [digit_char (n mod 10)])"

declare to_string.simps [simp del]

text \<open>\<^verbatim>\<open>tag()\<close>: the signature up to the first parenthesis, all of it when there is none.\<close>

definition tag :: "'v csg_node \<Rightarrow> string" where
  "tag n = (case find_first_of (m_func n) ''('' 0 of
              None \<Rightarrow> m_func n
            | Some index \<Rightarrow> take index (m_func n))"

text \<open>
  \<^verbatim>\<open>par()\<close>: the signature from the first parenthesis on. Without a parenthesis the
  index is \<^verbatim>\<open>npos\<close> and \<^verbatim>\<open>substr\<close> throws \<^verbatim>\<open>std::out_of_range\<close>.
\<close>

definition par :: "'v csg_node \<Rightarrow> string result" where
  "par n = (case find_first_of (m_func n) ''('' 0 of
              None \<Rightarrow> Inl Out_of_range
            | Some index \<Rightarrow> Inr (drop index (m_func n)))"

text \<open>
  \<^verbatim>\<open>static_cast<int>\<close> of a \<^verbatim>\<open>size_t\<close>: the value modulo \<^verbatim>\<open>2^32\<close>, read as a signed
  number.
\<close>

definition size_t_to_int :: "nat \<Rightarrow> int" where
  "size_t_to_int n = sint (word_of_nat n :: 32 word)"

text \<open>
  \<^verbatim>\<open>par_name\<close>: \<^verbatim>\<open>sprintf(buffer,"_p%03d",static_cast<int>(ipos))\<close>, the position in
  decimal, padded with zeros to three characters, the sign being one of them.
\<close>

definition par_name :: "nat \<Rightarrow> string" where
  "par_name ipos =
     (let i = size_t_to_int ipos in
      if i < 0 then
        ''_p-'' @ replicate (2 - length (to_string (nat (- i)))) CHR ''0'' @ to_string (nat (- i))
      else ''_p'' @ replicate (3 - length (to_string (nat i))) CHR ''0'' @ to_string (nat i))"

subsection \<open>Dummy nodes\<close>

text \<open>
  \<^verbatim>\<open>is_dummy\<close>. The loop over the children returns \<^verbatim>\<open>false\<close> at the first child that
  is not dummy; \<open>is_dummy_children\<close> is that loop, true when it returned. When the loop
  runs to its end, control leaves the \<^verbatim>\<open>if\<close> and reaches the final
  \<^verbatim>\<open>return false\<close>.
\<close>

fun is_dummy :: "'v csg_node \<Rightarrow> bool"
  and is_dummy_children :: "'v csg_node list \<Rightarrow> bool" where
  "is_dummy (Csg_node lv lno f ps cs hm mx) =
     (if tag (Csg_node lv lno f ps cs hm mx) = ''group'' then
        (if length cs = 0 then True
         else if is_dummy_children cs then False
         else False)
      else False)"
| "is_dummy_children [] = False"
| "is_dummy_children (c # cs) = (if \<not> is_dummy c then True else is_dummy_children cs)"

text \<open>\<^verbatim>\<open>size_children\<close>: the number of children that are not dummy.\<close>

definition size_children :: "'v csg_node \<Rightarrow> nat" where
  "size_children n = fold (\<lambda>c nc. if \<not> is_dummy c then nc + 1 else nc) (m_children n) 0"

subsection \<open>Dimension\<close>

text \<open>
  The tags with a dimension of their own: the first ten branches of both chains of
  \<^verbatim>\<open>dimension()\<close>; 0 when none matches.
\<close>

definition generator_dimension :: "string \<Rightarrow> nat" where
  "generator_dimension t =
     (if t = ''circle'' then 2
      else if t = ''square'' then 2
      else if t = ''polygon'' then 2
      else if t = ''projection'' then 2
      else if t = ''sphere'' then 3
      else if t = ''cylinder'' then 3
      else if t = ''cube'' then 3
      else if t = ''polyhedron'' then 3
      else if t = ''linear_extrude'' then 3
      else if t = ''rotate_extrude'' then 3
      else 0)"

text \<open>The four tags that throw, with the message of each.\<close>

definition not_supported :: "string \<Rightarrow> nat \<Rightarrow> string \<Rightarrow> error option" where
  "not_supported t line func =
     (if t = ''text'' then
        Some (Runtime_error (''OpenSCAD csg line '' @ to_string line @ '', 'text' is not supported: '' @ func))
      else if t = ''surface'' then
        Some (Runtime_error (''OpenSCAD csg line '' @ to_string line @ '', 'surface' is not supported: '' @ func))
      else if t = ''import'' then
        Some (Runtime_error (''OpenSCAD csg line '' @ to_string line @
                '', 'import' is not supported with this file type: '' @ func))
      else if t = ''resize'' then
        Some (Runtime_error (''OpenSCAD csg line '' @ to_string line @ '', 'resize' is not supported: '' @ func))
      else None)"

text \<open>The child tags whose dimension is asked of the child itself.\<close>

definition pass_through :: "string \<Rightarrow> bool" where
  "pass_through t =
     (t = ''group'' \<or> t = ''color'' \<or> t = ''multmatrix'' \<or> take 4 t = ''unio'' \<or>
      take 4 t = ''diff'' \<or> take 4 t = ''inte'' \<or> take 4 t = ''mink'' \<or>
      take 4 t = ''offs'' \<or> take 4 t = ''rend'' \<or> take 4 t = ''hull'')"

text \<open>
  \<^verbatim>\<open>dimension()\<close>. \<open>dimension_children\<close> is the loop over the children: \<^verbatim>\<open>dim\<close> is 0
  whenever an iteration starts (a positive value has been returned), so a child that
  matches no branch leaves it 0.
\<close>

fun dimension :: "'v csg_node \<Rightarrow> nat result"
  and dimension_children :: "'v csg_node list \<Rightarrow> nat result" where
  "dimension (Csg_node lv lno f ps cs hm mx) =
     (if generator_dimension (tag (Csg_node lv lno f ps cs hm mx)) > 0
      then Inr (generator_dimension (tag (Csg_node lv lno f ps cs hm mx)))
      else case not_supported (tag (Csg_node lv lno f ps cs hm mx)) lno f of
        Some e \<Rightarrow> Inl e
      | None \<Rightarrow> if length cs = 0 then Inr 0 else dimension_children cs)"
| "dimension_children [] = Inr 0"
| "dimension_children (c # cs) =
     (if \<not> is_dummy c then
        (case (if generator_dimension (tag c) > 0 then Inr (generator_dimension (tag c))
               else if pass_through (tag c) then dimension c
               else case not_supported (tag c) (m_line_no c) (m_func c) of
                      Some e \<Rightarrow> Inl e
                    | None \<Rightarrow> Inr 0) of
           Inl e \<Rightarrow> Inl e
         | Inr d \<Rightarrow> if d > 0 then Inr d else dimension_children cs)
      else dimension_children cs)"

subsection \<open>Tags of the target schema\<close>

text \<open>
  The table as \<^verbatim>\<open>configure_xmap\<close> fills it; the conversion is modelled with the table
  filled.
\<close>

definition m_xmap :: "string \<Rightarrow> string option" where
  "m_xmap = map_of
     [(''cube'', ''cuboid''),
      (''cylinder'', ''cone''),
      (''polyhedron'', ''polyhedron''),
      (''sphere'', ''sphere''),
      (''linear_extrude'', ''sweep''),
      (''rotate_extrude'', ''rotate_extrude''),
      (''group'', ''union*''),
      (''union'', ''union*''),
      (''color'', ''union*''),
      (''multmatrix'', ''union*''),
      (''render'', ''union*''),
      (''difference'', ''difference*''),
      (''intersection'', ''intersection*''),
      (''hull'', ''hull*''),
      (''minkowski'', ''minkowski*''),
      (''circle'', ''circle''),
      (''polygon'', ''polygon''),
      (''square'', ''rectangle''),
      (''offset'', ''offset2d''),
      (''projection'', ''projection2d''),
      (''import'', ''N/A''),
      (''surface'', ''N/A''),
      (''text'', ''N/A''),
      (''resize'', ''N/A'')]"

text \<open>
  \<^verbatim>\<open>fix_tag\<close>: when the template holds a star anywhere, its last character is dropped
  and the dimension appended; with a dimension other than 2 and 3 the template comes
  back as it is.
\<close>

definition fix_tag :: "'v csg_node \<Rightarrow> string \<Rightarrow> string result" where
  "fix_tag n t =
     (case find_first_of t ''*'' 0 of
        Some index \<Rightarrow>
          (case dimension n of
             Inl e \<Rightarrow> Inl e
           | Inr d \<Rightarrow>
               Inr (if d = 2 then take (length t - 1) t @ ''2d''
                    else if d = 3 then take (length t - 1) t @ ''3d''
                    else t))
      | None \<Rightarrow> Inr t)"

subsection \<open>Parameters of a node\<close>

definition line_no :: "'v csg_node \<Rightarrow> string" where
  "line_no n = ''.csg file line '' @ to_string (m_line_no n)"

definition get_scalar :: "'v csg_value_ops \<Rightarrow> 'v csg_node \<Rightarrow> string \<Rightarrow> string result" where
  "get_scalar V n name =
     (case m_par n name of
        Some v \<Rightarrow> Inr (v_to_string V v)
      | None \<Rightarrow> Inl (Runtime_error (''csg_node::get_scalar(), '' @ line_no n @ '' parameter '' @ CHR 0x27 # name @
                        CHR 0x27 # '' not found for '' @ tag n)))"

definition get_value :: "'v csg_node \<Rightarrow> string \<Rightarrow> 'v result" where
  "get_value n name =
     (case m_par n name of
        Some v \<Rightarrow> Inr v
      | None \<Rightarrow> Inl (Runtime_error (''csg_node::get_value(), '' @ line_no n @ '' parameter '' @ CHR 0x27 # name @
                        CHR 0x27 # '' not found for '' @ tag n)))"

subsection \<open>Parsing the parameter list\<close>

lemma find_first_from_bounds:
  "find_first_from ds p s = Some q \<Longrightarrow> p \<le> q \<and> q < p + length s"
  by (induction s arbitrary: p) (fastforce split: if_splits)+

lemma find_first_of_bounds:
  assumes "find_first_of s ds start = Some pos"
  shows "start \<le> pos" and "pos < length s"
proof -
  from assms have b: "start \<le> pos \<and> pos < start + length (drop start s)"
    unfolding find_first_of_def by (rule find_first_from_bounds)
  then show "start \<le> pos" by simp
  from assms have "drop start s \<noteq> []"
    unfolding find_first_of_def by (cases "drop start s") auto
  with b show "pos < length s" by simp
qed

text \<open>\<^verbatim>\<open>tokenize\<close>: the pieces between delimiters, the empty ones left out.\<close>

function tokenize_from :: "string \<Rightarrow> char list \<Rightarrow> nat \<Rightarrow> string list \<Rightarrow> string list" where
  "tokenize_from input delimiters last_pos tokens =
     (case find_first_of input delimiters last_pos of
        None \<Rightarrow>
          (if length input - last_pos > 0 then tokens @ [drop last_pos input] else tokens)
      | Some pos \<Rightarrow>
          tokenize_from input delimiters (pos + 1)
            (if pos - last_pos > 0 then tokens @ [take (pos - last_pos) (drop last_pos input)]
             else tokens))"
  by pat_completeness auto
termination
proof (relation "measure (\<lambda>(input, delimiters, last_pos, tokens). length input - last_pos)")
  fix input :: string and delimiters last_pos pos and tokens :: "string list"
  assume "find_first_of input delimiters last_pos = Some pos"
  then have "last_pos \<le> pos" and "pos < length input"
    by (rule find_first_of_bounds)+
  then show "((input, delimiters, pos + 1,
                if 0 < pos - last_pos then tokens @ [take (pos - last_pos) (drop last_pos input)]
                else tokens),
              input, delimiters, last_pos, tokens)
             \<in> measure (\<lambda>(input, delimiters, last_pos, tokens). length input - last_pos)"
    by simp
qed simp

declare tokenize_from.simps [simp del]

definition tokenize :: "string \<Rightarrow> char list \<Rightarrow> string list" where
  "tokenize input delimiters = tokenize_from input delimiters 0 []"

text \<open>
  \<^verbatim>\<open>par_value\<close>: the value that starts at \<^verbatim>\<open>istart\<close>, up to the next comma outside
  brackets (which is overwritten with a blank in the caller's string), to the bracket
  that closes the outer vector, or to the end. The result is the changed parameter
  string and the value. The depth counter is a \<^verbatim>\<open>size_t\<close>: it wraps below zero.
\<close>

function par_value_loop :: "string \<Rightarrow> nat \<Rightarrow> 64 word \<Rightarrow> string \<Rightarrow> string \<times> string" where
  "par_value_loop param i inside val =
     (if i < length param then
        (if param ! i = CHR '','' \<and> (if param ! i = CHR ''['' then inside + 1 else inside) = 0
         then (param[i := CHR '' ''], val)
         else if param ! i = CHR '']'' then
           (if (if param ! i = CHR ''['' then inside + 1 else inside) - 1 = 0
            then (param, val @ [param ! i])
            else par_value_loop param (i + 1)
                   ((if param ! i = CHR ''['' then inside + 1 else inside) - 1) (val @ [param ! i]))
         else par_value_loop param (i + 1)
                (if param ! i = CHR ''['' then inside + 1 else inside) (val @ [param ! i]))
      else (param, val))"
  by pat_completeness auto
termination
  by (relation "measure (\<lambda>(param, i, inside, val). length param - i)") auto

declare par_value_loop.simps [simp del]

definition par_value :: "string \<Rightarrow> nat \<Rightarrow> string \<times> string" where
  "par_value param istart = par_value_loop param istart 0 []"

lemma par_value_loop_length: "length (fst (par_value_loop param i inside val)) = length param"
  by (induction param i inside val rule: par_value_loop.induct)
     (subst par_value_loop.simps, simp)

lemma par_value_length: "length (fst (par_value param istart)) = length param"
  by (simp add: par_value_def par_value_loop_length)

text \<open>
  The loop of \<^verbatim>\<open>parse_params\<close> over the parameter string. The equals sign is looked
  for in all that is left of the string; \<^verbatim>\<open>iparam\<close> is passed on as it is, the loop
  has no statement that changes it.
\<close>

function parse_params_loop ::
  "'v csg_value_ops \<Rightarrow> nat \<Rightarrow> nat \<Rightarrow> string \<Rightarrow> (string \<Rightarrow> 'v option) \<Rightarrow> (string \<Rightarrow> 'v option)" where
  "parse_params_loop V lno iparam params pars =
     (if length params > 0 then
        (let name = (case find_first_of params ''='' 0 of
                       None \<Rightarrow> par_name iparam
                     | Some ieq \<Rightarrow> take ieq params);
             ieq = (case find_first_of params ''='' 0 of
                      None \<Rightarrow> 0
                    | Some ieq \<Rightarrow> ieq + 1);
             params1 = fst (par_value params ieq);
             value_str = snd (par_value params ieq);
             pars1 = (case v_parse V value_str lno of
                        Some v \<Rightarrow> pars(name \<mapsto> v)
                      | None \<Rightarrow> pars);
             len = length name + 1 + length value_str + 1
         in parse_params_loop V lno iparam
              (if len \<le> length params1 then drop len params1 else []) pars1)
      else pars)"
  by pat_completeness auto
termination
  by (relation "measure (\<lambda>(V, lno, iparam, params, pars). length params)")
     (auto simp: par_value_length)

declare parse_params_loop.simps [simp del]

text \<open>
  \<^verbatim>\<open>parse_params\<close>: the parameter map of a node with the signature \<open>func\<close> read on
  line \<open>lno\<close>. \<^verbatim>\<open>par()\<close> throws when the signature has no parenthesis.
\<close>

definition parse_params :: "'v csg_value_ops \<Rightarrow> nat \<Rightarrow> string \<Rightarrow> (string \<Rightarrow> 'v option) result" where
  "parse_params V lno func =
     (case find_first_of func ''('' 0 of
        None \<Rightarrow> Inl Out_of_range
      | Some index \<Rightarrow>
          (case tokenize (drop index func) ''()'' of
             [] \<Rightarrow> Inr Map.empty
           | params # rest \<Rightarrow> Inr (parse_params_loop V lno 0 params Map.empty)))"

text \<open>The constructor \<^verbatim>\<open>csg_node(level,line_no,func)\<close>.\<close>

definition csg_node :: "'v csg_value_ops \<Rightarrow> nat \<Rightarrow> nat \<Rightarrow> string \<Rightarrow> 'v csg_node result" where
  "csg_node V level lno func =
     (case parse_params V lno func of
        Inl e \<Rightarrow> Inl e
      | Inr pars \<Rightarrow>
          Inr (Csg_node (size_t_to_int level) lno func pars [] False csg_matrix_default))"

text \<open>
  \<^verbatim>\<open>assign_matrix\<close>. \<^verbatim>\<open>m_par[par_name(0)]\<close> inserts a null pointer when the parameter
  is absent, and the call of \<^verbatim>\<open>size()\<close> through it is undefined.
\<close>

definition assign_matrix :: "'v csg_value_ops \<Rightarrow> 'v csg_node \<Rightarrow> 'v csg_node result" where
  "assign_matrix V n =
     (case m_par n (par_name 0) of
        None \<Rightarrow> Inl (Undefined_behaviour ''assign_matrix: null matrix parameter'')
      | Some matrix \<Rightarrow>
          if v_size V matrix \<noteq> 4 then
            Inl (Runtime_error ''csg_node::assign_matrix(), multimatrix size != 4 '')
          else if list_ex (\<lambda>i. v_size V (v_get V matrix i) \<noteq> 4) [0..<4] then
            Inl (Runtime_error ''csg_node::assign_matrix(), multimatrix row size != 4 '')
          else
            Inr (Csg_node (m_level n) (m_line_no n) (m_func n) (m_par n) (m_children n) True
                   (\<lambda>i j. if i < 4 \<and> j < 4 then v_to_double V (v_get V (v_get V matrix i) j)
                           else m_matrix n i j)))"

text \<open>The transform block: \<^verbatim>\<open>tmatrix\<close> with four \<^verbatim>\<open>trow\<close> of four entries.\<close>

definition to_xcsg_matrix :: "csg_matrix \<Rightarrow> cf_xmlNode" where
  "to_xcsg_matrix matrix =
     Xml_node ''tmatrix'' []
       (map (\<lambda>irow. Xml_node ''trow''
               (map (\<lambda>icol. (CHR ''c'' # to_string icol, Xml_number (matrix irow icol))) [0..<4]) [])
            [0..<4])"

subsection \<open>Shape encoders\<close>

text \<open>Sequencing of calls that may throw: the first error ends the computation.\<close>

fun and_then :: "'a result \<Rightarrow> ('a \<Rightarrow> 'b result) \<Rightarrow> 'b result" where
  "and_then (Inl e) f = Inl e"
| "and_then (Inr x) f = f x"

text \<open>
  An error whose message ends with \<^verbatim>\<open>par()\<close>; building the message throws
  \<^verbatim>\<open>std::out_of_range\<close> instead when the signature has no parenthesis.
\<close>

definition throw_with_par :: "'v csg_node \<Rightarrow> string \<Rightarrow> 'a result" where
  "throw_with_par n msg = and_then (par n) (\<lambda>p. Inl (Runtime_error (msg @ p)))"

text \<open>\<^verbatim>\<open>circle\<close> and \<^verbatim>\<open>sphere\<close>: the same body under two tags.\<close>

definition encode_radius :: "'v csg_value_ops \<Rightarrow> 'v csg_node \<Rightarrow> string \<Rightarrow> cf_xmlNode result" where
  "encode_radius V n xcsg_tag =
     and_then (get_value n ''r'') (\<lambda>v.
       if v_to_double V v \<le> 0 then Inl (Runtime_error (line_no n @ '': r must be > 0.0 '' @ m_func n))
       else Inr (Xml_node xcsg_tag [(''r'', Xml_number (v_to_double V v))] []))"

definition encode_rectangle :: "'v csg_value_ops \<Rightarrow> 'v csg_node \<Rightarrow> cf_xmlNode result" where
  "encode_rectangle V n =
     and_then (get_value n ''size'') (\<lambda>siz.
       let dx = (if v_size V siz > 1 then v_to_double V (v_get V siz 0) else v_to_double V siz);
           dy = (if v_size V siz > 1 then v_to_double V (v_get V siz 1) else v_to_double V siz)
       in if dx \<le> 0 then Inl (Runtime_error (line_no n @ '': dx must be > 0.0 '' @ m_func n))
          else if dy \<le> 0 then Inl (Runtime_error (line_no n @ '': dy must be > 0.0 '' @ m_func n))
          else and_then (get_scalar V n ''center'') (\<lambda>center.
            Inr (Xml_node ''rectangle''
                   [(''dx'', Xml_number dx), (''dy'', Xml_number dy), (''center'', Xml_string center)] [])))"

text \<open>An \<^verbatim>\<open>int\<close> stored in a \<^verbatim>\<open>size_t\<close>.\<close>

definition size_t_of_int :: "int \<Rightarrow> nat" where
  "size_t_of_int i = nat (i mod 2 ^ 64)"

definition encode_polygon :: "'v csg_value_ops \<Rightarrow> 'v csg_node \<Rightarrow> cf_xmlNode result" where
  "encode_polygon V n =
     and_then (get_value n ''points'') (\<lambda>points.
       and_then
         (case m_par n ''paths'' of
            None \<Rightarrow> Inr [0..<v_size V points]
          | Some paths \<Rightarrow>
              if v_is_vector V paths then
                (if v_size V paths = 1 then
                   Inr (map (\<lambda>ip. size_t_of_int (v_to_int V (v_get V (v_get V paths 0) ip)))
                          [0..<v_size V (v_get V paths 0)])
                 else Inl (Runtime_error (line_no n @
                        '': polygon with internal hole(s) is not supported: '' @ m_func n)))
              else Inr [0..<v_size V points])
         (\<lambda>path.
            Inr (Xml_node ''polygon'' []
                   [Xml_node ''vertices'' []
                      (map (\<lambda>i. Xml_node ''vertex''
                                [(''x'', Xml_string (v_to_string V (v_get V (v_get V points i) 0))),
                                 (''y'', Xml_string (v_to_string V (v_get V (v_get V points i) 1)))] [])
                           path)])))"

text \<open>
  \<^verbatim>\<open>offset2d\<close>. The iterator of \<^verbatim>\<open>delta\<close> is read without a test when \<^verbatim>\<open>r\<close> is
  absent: with both absent it is the end iterator.
\<close>

definition encode_offset2d :: "'v csg_value_ops \<Rightarrow> 'v csg_node \<Rightarrow> cf_xmlNode result" where
  "encode_offset2d V n =
     and_then
       (case m_par n ''r'' of
          Some r \<Rightarrow> Inr (v_to_double V r)
        | None \<Rightarrow>
            (case m_par n ''delta'' of
               Some d \<Rightarrow> Inr (v_to_double V d)
             | None \<Rightarrow> Inl (Undefined_behaviour ''offset2d: end iterator of delta dereferenced'')))
       (\<lambda>delta.
          Inr (Xml_node ''offset2d''
                 [(''delta'', Xml_number delta),
                  (''round'', Xml_string (if m_par n ''r'' \<noteq> None then ''true'' else ''false'')),
                  (''chamfer'', Xml_string (case m_par n ''chamfer'' of
                                              Some ch \<Rightarrow> v_to_string V ch
                                            | None \<Rightarrow> ''false''))] []))"

definition encode_cone :: "'v csg_value_ops \<Rightarrow> 'v csg_node \<Rightarrow> cf_xmlNode result" where
  "encode_cone V n =
     and_then (get_value n ''h'') (\<lambda>hv.
     and_then (get_value n ''r1'') (\<lambda>r1v.
     and_then (get_value n ''r2'') (\<lambda>r2v.
       let h = v_to_double V hv; r1 = v_to_double V r1v; r2 = v_to_double V r2v
       in if h \<le> 0 then Inl (Runtime_error (line_no n @ '': h must be > 0.0 '' @ m_func n))
          else if r1 < 0 then Inl (Runtime_error (line_no n @ '': r1 must be >= 0.0 '' @ m_func n))
          else if r2 < 0 then Inl (Runtime_error (line_no n @ '': r2 must be >= 0.0 '' @ m_func n))
          else if r1 + r2 \<le> 0 then Inl (Runtime_error (line_no n @ '': r1+r2 must be > 0.0 '' @ m_func n))
          else and_then (get_scalar V n ''center'') (\<lambda>center.
            Inr (Xml_node ''cone''
                   [(''h'', Xml_number h), (''r1'', Xml_number r1), (''r2'', Xml_number r2),
                    (''center'', Xml_string center)] [])))))"

definition encode_cuboid :: "'v csg_value_ops \<Rightarrow> 'v csg_node \<Rightarrow> cf_xmlNode result" where
  "encode_cuboid V n =
     and_then (get_value n ''size'') (\<lambda>siz.
       let dx = (if v_size V siz > 1 then v_to_double V (v_get V siz 0) else v_to_double V siz);
           dy = (if v_size V siz > 1 then v_to_double V (v_get V siz 1) else v_to_double V siz);
           dz = (if v_size V siz > 1 then v_to_double V (v_get V siz 2) else v_to_double V siz)
       in if dx \<le> 0 then Inl (Runtime_error (line_no n @ '': dx must be > 0.0 '' @ m_func n))
          else if dy \<le> 0 then Inl (Runtime_error (line_no n @ '': dy must be > 0.0 '' @ m_func n))
          else if dz \<le> 0 then Inl (Runtime_error (line_no n @ '': dz must be > 0.0 '' @ m_func n))
          else and_then (get_scalar V n ''center'') (\<lambda>center.
            Inr (Xml_node ''cuboid''
                   [(''dx'', Xml_number dx), (''dy'', Xml_number dy), (''dz'', Xml_number dz),
                    (''center'', Xml_string center)] [])))"

text \<open>The branch for the tag \<^verbatim>\<open>linear_extrude\<close>, which the table never produces.\<close>

definition encode_linear_extrude :: "'v csg_value_ops \<Rightarrow> 'v csg_node \<Rightarrow> cf_xmlNode result" where
  "encode_linear_extrude V n =
     (if \<bar>case m_par n ''twist'' of Some tw \<Rightarrow> v_to_double V tw | None \<Rightarrow> 0\<bar> > 0 then
        Inl (Runtime_error (line_no n @ '': linear_extrude with non-zero twist is not supported: '' @ m_func n))
      else and_then (get_scalar V n ''height'') (\<lambda>height.
           and_then (get_scalar V n ''center'') (\<lambda>center.
             Inr (Xml_node ''linear_extrude''
                    [(''dz'', Xml_string height), (''center'', Xml_string center)] []))))"

subsection \<open>The sweep\<close>

text \<open>
  Rounding to double precision (IEEE 754 binary64, round to nearest, ties to even):
  the result of an operation on doubles is the double nearest to the exact result. A
  double is an integer of at most 53 bits times a power of two, the exponent of the
  value being at least -1022; below that exponent the doubles are the multiples of
  \<^verbatim>\<open>2^-1074\<close>. The largest exponent is not a limit of the model: a result beyond the
  largest double, an infinity in C++, stays a real beyond the range of \<^verbatim>\<open>int\<close>.
\<close>

definition pow2 :: "int \<Rightarrow> real" where
  "pow2 e = (if 0 \<le> e then 2 ^ nat e else 1 / 2 ^ nat (- e))"

definition round_half_even :: "real \<Rightarrow> int" where
  "round_half_even x =
     (if x - of_int \<lfloor>x\<rfloor> < 1 / 2 then \<lfloor>x\<rfloor>
      else if x - of_int \<lfloor>x\<rfloor> > 1 / 2 then \<lfloor>x\<rfloor> + 1
      else if even \<lfloor>x\<rfloor> then \<lfloor>x\<rfloor> else \<lfloor>x\<rfloor> + 1)"

definition double_exponent :: "real \<Rightarrow> int" where
  "double_exponent x = max \<lfloor>log 2 \<bar>x\<bar>\<rfloor> (- 1022)"

definition round_double :: "real \<Rightarrow> real" where
  "round_double x =
     (if x = 0 then 0
      else of_int (round_half_even (x / pow2 (double_exponent x - 52))) *
           pow2 (double_exponent x - 52))"

text \<open>Half the distance of two neighbours among the smallest doubles.\<close>

definition double_tiny :: real where
  "double_tiny = 1 / 2 ^ 1075"

text \<open>
  The constant \<^verbatim>\<open>pi = 4.0*atan(1.0)\<close>: \<^verbatim>\<open>atan(1.0)\<close> is the double nearest to a quarter
  of \<open>\<pi>\<close> and the product by 4 is exact, so that the constant is the double nearest to
  \<open>\<pi>\<close>, \<^verbatim>\<open>0x1.921fb54442d18p+1\<close>, which is 884279719003555 / \<^verbatim>\<open>2^48\<close>.
\<close>

definition csg_pi :: real where
  "csg_pi = 884279719003555 / 281474976710656"

text \<open>
  \<^verbatim>\<open>static_cast<int>\<close> of a \<^verbatim>\<open>double\<close>: the fraction is dropped; the conversion is
  undefined when the result does not fit 32 bits.
\<close>

definition double_to_int :: "real \<Rightarrow> int result" where
  "double_to_int x =
     (if - 2147483649 < x \<and> x < 2147483648 then Inr (if 0 \<le> x then \<lfloor>x\<rfloor> else \<lceil>x\<rceil>)
      else Inl (Undefined_behaviour ''double to int: value out of range''))"

text \<open>
  The quotient \<^verbatim>\<open>36*fabs(tw)/(2*pi)\<close>: two products and a quotient of doubles, each
  rounded.
\<close>

definition sweep_quotient :: "real \<Rightarrow> real" where
  "sweep_quotient tw =
     round_double (round_double (36 * \<bar>tw\<bar>) / round_double (2 * csg_pi))"

text \<open>The number of segments, from the twist in radians and the slice count.\<close>

definition sweep_nseg :: "real \<Rightarrow> int \<Rightarrow> int result" where
  "sweep_nseg tw slices =
     and_then (if \<bar>tw\<bar> > 0 then double_to_int (sweep_quotient tw) else Inr 1)
       (\<lambda>nseg. Inr (if slices > 0 \<and> slices > nseg then slices else nseg))"

definition cpoint :: "real \<Rightarrow> real \<Rightarrow> real \<Rightarrow> real \<Rightarrow> real \<Rightarrow> real \<Rightarrow> cf_xmlNode" where
  "cpoint x y z vx vy vz =
     Xml_node ''cpoint''
       [(''x'', Xml_number x), (''y'', Xml_number y), (''z'', Xml_number z),
        (''vx'', Xml_number vx), (''vy'', Xml_number vy), (''vz'', Xml_number vz)] []"

text \<open>
  The loop over the segments; the first argument counts the iterations left. The base
  tangent is \<open>(vx0, vy0, vz0) = (0, 1, 0)\<close>.
\<close>

fun sweep_cpoints ::
  "nat \<Rightarrow> real \<Rightarrow> real \<Rightarrow> real \<Rightarrow> real \<Rightarrow> real \<Rightarrow> real \<Rightarrow> real \<Rightarrow> real \<Rightarrow> cf_xmlNode list" where
  "sweep_cpoints 0 dz da dscx dscy z angle scx scy = []"
| "sweep_cpoints (Suc k) dz da dscx dscy z angle scx scy =
     cpoint 0 0 (z + dz)
       ((cos (angle + da) * 0 - sin (angle + da) * 1) * (scx + dscx))
       ((sin (angle + da) * 0 + cos (angle + da) * 1) * (scy + dscy)) 0
     # sweep_cpoints k dz da dscx dscy (z + dz) (angle + da) (scx + dscx) (scy + dscy)"

text \<open>
  The twist in radians, negated, and the slice count, as the encoder reads them.
  \<^verbatim>\<open>-t*pi/180.\<close> is a product and a quotient of doubles, each rounded.
\<close>

definition twist_radians :: "real \<Rightarrow> real" where
  "twist_radians t = round_double (round_double (- t * csg_pi) / 180)"

definition sweep_twist :: "'v csg_value_ops \<Rightarrow> 'v csg_node \<Rightarrow> real" where
  "sweep_twist V n =
     (case m_par n ''twist'' of
        Some t \<Rightarrow> twist_radians (v_to_double V t)
      | None \<Rightarrow> 0)"

definition sweep_slices :: "'v csg_value_ops \<Rightarrow> 'v csg_node \<Rightarrow> int" where
  "sweep_slices V n =
     (case m_par n ''slices'' of
        Some sl \<Rightarrow> v_to_int V sl
      | None \<Rightarrow> - 1)"

text \<open>
  The encoder of \<^verbatim>\<open>sweep\<close>. With \<^verbatim>\<open>nseg\<close> = 0 the four quotients by \<^verbatim>\<open>nseg\<close> are
  divisions by zero, infinities or NaN and no real number; the loop that would read
  them does not run, and only the bottom point is written. That case is a branch of
  its own here, so that no quotient by zero is formed.
\<close>

definition encode_sweep :: "'v csg_value_ops \<Rightarrow> 'v csg_node \<Rightarrow> cf_xmlNode result" where
  "encode_sweep V n =
     and_then (get_value n ''height'') (\<lambda>hv.
       if v_to_double V hv \<le> 0 then
         Inl (Runtime_error (line_no n @ '': height must be > 0.0 '' @ m_func n))
       else
         let dz = v_to_double V hv;
             tw = sweep_twist V n;
             center = (case m_par n ''center'' of
                         Some c \<Rightarrow> v_to_string V c
                       | None \<Rightarrow> ''false'');
             slices = sweep_slices V n
         in and_then (get_value n ''scale'') (\<lambda>sc_value.
              let scx = (if v_is_vector V sc_value then v_to_double V (v_get V sc_value 0)
                         else v_to_double V sc_value);
                  scy = (if v_is_vector V sc_value then v_to_double V (v_get V sc_value 1)
                         else v_to_double V sc_value);
                  z = (if center = ''true'' then - dz * 0.5 else 0)
              in and_then (sweep_nseg tw slices) (\<lambda>nseg.
                   Inr (Xml_node ''sweep'' []
                          [Xml_node ''spline_path'' []
                             (cpoint 0 0 z 0 1 0 #
                              (if nseg = 0 then []
                               else sweep_cpoints (nat nseg) (dz / of_int nseg) (tw / of_int nseg)
                                      ((scx - 1) / of_int nseg) ((scy - 1) / of_int nseg)
                                      z 0 1 1))]))))"

subsection \<open>Rotate extrude\<close>

text \<open>The matrix \<^verbatim>\<open>rotx\<close>: four entries of a default matrix are assigned.\<close>

definition rotx :: csg_matrix where
  "rotx = csg_matrix_set (csg_matrix_set (csg_matrix_set (csg_matrix_set csg_matrix_default
            1 1 0) 1 2 1) 2 1 (- 1)) 2 2 0"

text \<open>
  The encoder writes the angle, read through the iterator of \<^verbatim>\<open>angle\<close> without a test,
  and then changes the transform of the node.
\<close>

definition encode_rotate_extrude ::
  "'v csg_value_ops \<Rightarrow> 'v csg_node \<Rightarrow> ('v csg_node \<times> cf_xmlNode) result" where
  "encode_rotate_extrude V n =
     (case m_par n ''angle'' of
        None \<Rightarrow> Inl (Undefined_behaviour ''rotate_extrude: end iterator of angle dereferenced'')
      | Some a \<Rightarrow>
          Inr (Csg_node (m_level n) (m_line_no n) (m_func n) (m_par n) (m_children n) True
                 (if m_has_matrix n then csg_matrix_mult rotx (m_matrix n) else rotx),
               Xml_node ''rotate_extrude'' [(''angle'', Xml_number (v_to_double V a * csg_pi / 180))] []))"

subsection \<open>Polyhedron and projection\<close>

fun polyhedron_vertices ::
  "'v csg_value_ops \<Rightarrow> 'v csg_node \<Rightarrow> 'v \<Rightarrow> nat list \<Rightarrow> cf_xmlNode list result" where
  "polyhedron_vertices V n points [] = Inr []"
| "polyhedron_vertices V n points (ip # ips) =
     (if v_size V (v_get V points ip) = 1 then
        Inl (Runtime_error (line_no n @ '': Illegal polyhedron point value at position('' @
               to_string ip @ ''): '' @ v_to_string V (v_get V points ip)))
      else if v_size V (v_get V points ip) < 3 then
        throw_with_par n (line_no n @ '': polyhedron points must have 3 values ('' @ to_string ip @
          '' '' @ to_string (v_size V (v_get V points ip)) @ ''): '')
      else and_then (polyhedron_vertices V n points ips) (\<lambda>vs.
        Inr (Xml_node ''vertex''
               [(''x'', Xml_string (v_to_string V (v_get V (v_get V points ip) 0))),
                (''y'', Xml_string (v_to_string V (v_get V (v_get V points ip) 1))),
                (''z'', Xml_string (v_to_string V (v_get V (v_get V points ip) 2)))] []
             # vs)))"

fun polyhedron_faces ::
  "'v csg_value_ops \<Rightarrow> 'v csg_node \<Rightarrow> 'v \<Rightarrow> nat list \<Rightarrow> cf_xmlNode list result" where
  "polyhedron_faces V n faces [] = Inr []"
| "polyhedron_faces V n faces (iface # ifaces) =
     (if v_size V (v_get V faces iface) < 3 then
        throw_with_par n (line_no n @ '': polyhedron face must have 3 or more values: '')
      else and_then (polyhedron_faces V n faces ifaces) (\<lambda>fs.
        Inr (Xml_node ''face'' []
               (map (\<lambda>ifv. Xml_node ''fv''
                       [(''index'', Xml_string (v_to_string V
                           (v_get V (v_get V faces iface)
                              (v_size V (v_get V faces iface) - ifv - 1))))] [])
                    [0..<v_size V (v_get V faces iface)])
             # fs)))"

definition encode_polyhedron :: "'v csg_value_ops \<Rightarrow> 'v csg_node \<Rightarrow> cf_xmlNode result" where
  "encode_polyhedron V n =
     and_then (get_value n ''points'') (\<lambda>points.
       if v_size V points < 4 then
         throw_with_par n (line_no n @ '': polyhedron with too few points: '')
       else
         and_then (polyhedron_vertices V n points [0..<v_size V points]) (\<lambda>vs.
         and_then (get_value n ''faces'') (\<lambda>faces.
         and_then (polyhedron_faces V n faces [0..<v_size V faces]) (\<lambda>fs.
           Inr (Xml_node ''polyhedron'' []
                  [Xml_node ''vertices'' [] vs, Xml_node ''faces'' [] fs])))))"

text \<open>
  \<^verbatim>\<open>projection2d\<close>. In cut mode \<^verbatim>\<open>xml_this\<close> is replaced by the inner intersection:
  the result is the outer node, if any, and the node that receives what follows.
\<close>

definition encode_projection2d ::
  "'v csg_value_ops \<Rightarrow> 'v csg_node \<Rightarrow> (cf_xmlNode option \<times> cf_xmlNode) result" where
  "encode_projection2d V n =
     and_then (get_value n ''cut'') (\<lambda>cut.
       if v_to_bool V cut then
         Inr (Some (Xml_node ''projection2d'' [] []),
              Xml_node ''intersection3d'' []
                [Xml_node ''cuboid''
                   [(''dx'', Xml_number 10000), (''dy'', Xml_number 10000),
                    (''dz'', Xml_number (1 / 10000)), (''center'', Xml_string ''true'')] []])
       else Inr (None, Xml_node ''projection2d'' [] []))"

subsection \<open>Boolean operators\<close>

text \<open>
  The loop that collects the dimensions of the children that are not dummy. The
  \<^verbatim>\<open>unordered_set\<close> is a list without repetition.
\<close>

fun mixed_dimension_check :: "'v csg_node list \<Rightarrow> nat list \<Rightarrow> error \<Rightarrow> unit result" where
  "mixed_dimension_check [] dims mixed = Inr ()"
| "mixed_dimension_check (c # cs) dims mixed =
     (if \<not> is_dummy c then
        and_then (dimension c) (\<lambda>d.
          if length (if d > 0 then List.insert d dims else dims) > 1 then Inl mixed
          else mixed_dimension_check cs (if d > 0 then List.insert d dims else dims) mixed)
      else mixed_dimension_check cs dims mixed)"

definition mixed_dimension :: "'v csg_node \<Rightarrow> string \<Rightarrow> string \<Rightarrow> error" where
  "mixed_dimension n openscad_tag xcsg_tag =
     Runtime_error (line_no n @ '': Mixed dimension children provided to '' @ CHR 0x27 # openscad_tag @
                    CHR 0x27 # '' --> '' @ xcsg_tag)"

definition fewer_than_2 :: "'v csg_node \<Rightarrow> string \<Rightarrow> string \<Rightarrow> error" where
  "fewer_than_2 n openscad_tag xcsg_tag =
     Runtime_error (line_no n @ '': Fewer than 2 children provided to '' @ CHR 0x27 # openscad_tag @
                    CHR 0x27 # '' --> '' @ xcsg_tag)"

definition encode_boolean :: "'v csg_node \<Rightarrow> string \<Rightarrow> string \<Rightarrow> cf_xmlNode result" where
  "encode_boolean n openscad_tag xcsg_tag =
     (if take 4 xcsg_tag = ''diff'' \<or> take 4 xcsg_tag = ''inte'' \<or> take 4 xcsg_tag = ''mink'' then
        (if length (m_children n) < 2 then Inl (fewer_than_2 n openscad_tag xcsg_tag)
         else and_then (mixed_dimension_check (m_children n) [] (mixed_dimension n openscad_tag xcsg_tag))
                (\<lambda>u. Inr (Xml_node xcsg_tag [] [])))
      else
        and_then (mixed_dimension_check (m_children n) [] (mixed_dimension n openscad_tag xcsg_tag))
          (\<lambda>u. Inr (Xml_node xcsg_tag [] [])))"

subsection \<open>Conversion of a node\<close>

text \<open>
  The chain of encoders, entered with the output tag decided. The result is the node
  (changed by \<^verbatim>\<open>rotate_extrude\<close> only), the outer output node when \<^verbatim>\<open>xml_this\<close> was
  replaced, and \<^verbatim>\<open>xml_this\<close>.
\<close>

definition encode ::
  "'v csg_value_ops \<Rightarrow> 'v csg_node \<Rightarrow> string \<Rightarrow> string \<Rightarrow>
   ('v csg_node \<times> cf_xmlNode option \<times> cf_xmlNode) result" where
  "encode V n openscad_tag xcsg_tag =
     (if xcsg_tag = ''circle'' then and_then (encode_radius V n xcsg_tag) (\<lambda>x. Inr (n, None, x))
      else if xcsg_tag = ''rectangle'' then and_then (encode_rectangle V n) (\<lambda>x. Inr (n, None, x))
      else if xcsg_tag = ''polygon'' then and_then (encode_polygon V n) (\<lambda>x. Inr (n, None, x))
      else if xcsg_tag = ''offset2d'' then and_then (encode_offset2d V n) (\<lambda>x. Inr (n, None, x))
      else if xcsg_tag = ''cone'' then and_then (encode_cone V n) (\<lambda>x. Inr (n, None, x))
      else if xcsg_tag = ''sphere'' then and_then (encode_radius V n xcsg_tag) (\<lambda>x. Inr (n, None, x))
      else if xcsg_tag = ''cuboid'' then and_then (encode_cuboid V n) (\<lambda>x. Inr (n, None, x))
      else if xcsg_tag = ''linear_extrude'' then
        and_then (encode_linear_extrude V n) (\<lambda>x. Inr (n, None, x))
      else if xcsg_tag = ''sweep'' then and_then (encode_sweep V n) (\<lambda>x. Inr (n, None, x))
      else if xcsg_tag = ''rotate_extrude'' then
        and_then (encode_rotate_extrude V n) (\<lambda>(n', x). Inr (n', None, x))
      else if xcsg_tag = ''polyhedron'' then and_then (encode_polyhedron V n) (\<lambda>x. Inr (n, None, x))
      else if xcsg_tag = ''projection2d'' then
        and_then (encode_projection2d V n) (\<lambda>(outer, x). Inr (n, outer, x))
      else if take 4 xcsg_tag = ''diff'' \<or> take 4 xcsg_tag = ''inte'' \<or> take 4 xcsg_tag = ''mink'' \<or>
              take 4 xcsg_tag = ''unio'' \<or> take 4 xcsg_tag = ''hull'' then
        and_then (encode_boolean n openscad_tag xcsg_tag) (\<lambda>x. Inr (n, None, x))
      else Inl (Runtime_error (line_no n @ '': Not supported : '' @ CHR 0x27 # openscad_tag @
                  CHR 0x27 # '' --> '' @ xcsg_tag @ '': '' @ m_func n)))"

text \<open>
  The replacement of a difference or intersection of one counted child by a union.
\<close>

definition single_child_fix :: "'v csg_node \<Rightarrow> string \<Rightarrow> string" where
  "single_child_fix n xcsg_tag =
     (if xcsg_tag = ''difference3d'' \<and> size_children n = 1 then ''union3d''
      else if xcsg_tag = ''difference2d'' \<and> size_children n = 1 then ''union2d''
      else if xcsg_tag = ''intersection3d'' \<and> size_children n = 1 then ''union3d''
      else if xcsg_tag = ''intersection2d'' \<and> size_children n = 1 then ''union2d''
      else xcsg_tag)"

text \<open>
  What \<^verbatim>\<open>to_xcsg\<close> does for a node below the root before it turns to the children:
  \<^item> \<open>Skipped\<close>: the dimension is 0 and the function has returned; nothing is written and
    the children are not visited;
  \<^item> \<open>Unmapped\<close>: the tag is not in the table; no output node is made and the children
    are given the empty \<^verbatim>\<open>xml_this\<close>;
  \<^item> \<open>Emitted\<close>: the output node is made, with the transform block when the node has a
    transform.
  \<open>parent_ok\<close> is false when the parent handed over is such an empty node: what
  \<^verbatim>\<open>add_child\<close> does on it is decided by the XML writer.
\<close>

datatype 'v own =
    Skipped
  | Unmapped "'v csg_node"
  | Emitted "'v csg_node" "cf_xmlNode option" cf_xmlNode

definition add_children :: "cf_xmlNode \<Rightarrow> cf_xmlNode list \<Rightarrow> cf_xmlNode" where
  "add_children x xs = Xml_node (xml_tag x) (xml_properties x) (xml_children x @ xs)"

definition to_xcsg_this :: "'v csg_value_ops \<Rightarrow> bool \<Rightarrow> 'v csg_node \<Rightarrow> 'v own result" where
  "to_xcsg_this V parent_ok n =
     and_then (dimension n) (\<lambda>d.
       if d = 0 then Inr Skipped
       else
         and_then (if tag n = ''multmatrix'' then assign_matrix V n else Inr n) (\<lambda>n1.
           case m_xmap (tag n) of
             None \<Rightarrow> Inr (Unmapped n1)
           | Some template \<Rightarrow>
               and_then (fix_tag n1 template) (\<lambda>xcsg_tag.
                 if find_first_of xcsg_tag ''*'' 0 = None then
                   (if \<not> parent_ok then Inl (Unmodelled ''add_child on an empty cf_xmlNode'')
                    else
                      and_then (encode V n1 (tag n) (single_child_fix n1 xcsg_tag)) (\<lambda>(n2, outer, x).
                        Inr (Emitted n2 outer
                               (if m_has_matrix n2 then add_children x [to_xcsg_matrix (m_matrix n2)]
                                else x))))
                 else
                   Inl (Runtime_error (line_no n @ '': OpenSCAD node dimension could not be determined:'' @
                          tag n @ '' --> '' @ xcsg_tag @ '': '' @ m_func n)))))"

text \<open>
  \<^verbatim>\<open>to_xcsg\<close>. The result is the node after the call, its children included, and the
  nodes appended to the parent: none or one.
\<close>

definition with_children :: "'v csg_node \<Rightarrow> 'v csg_node list \<Rightarrow> 'v csg_node" where
  "with_children n cs =
     Csg_node (m_level n) (m_line_no n) (m_func n) (m_par n) cs (m_has_matrix n) (m_matrix n)"

definition finish :: "cf_xmlNode option \<Rightarrow> cf_xmlNode \<Rightarrow> cf_xmlNode" where
  "finish outer x = (case outer of None \<Rightarrow> x | Some out \<Rightarrow> add_children out [x])"

fun to_xcsg :: "'v csg_value_ops \<Rightarrow> bool \<Rightarrow> 'v csg_node \<Rightarrow> ('v csg_node \<times> cf_xmlNode list) result"
  and to_xcsg_children ::
    "'v csg_value_ops \<Rightarrow> bool \<Rightarrow> 'v csg_node list \<Rightarrow> ('v csg_node list \<times> cf_xmlNode list) result" where
  "to_xcsg V parent_ok (Csg_node lv lno f ps cs hm mx) =
     (if lv = - 1 then
        and_then (fix_tag (Csg_node lv lno f ps cs hm mx) ''union*'') (\<lambda>root_tag.
          if \<not> parent_ok then Inl (Unmodelled ''add_child on an empty cf_xmlNode'')
          else and_then (to_xcsg_children V True cs) (\<lambda>(cs', xs).
            Inr (Csg_node lv lno f ps cs' hm mx, [Xml_node root_tag [] xs])))
      else
        and_then (to_xcsg_this V parent_ok (Csg_node lv lno f ps cs hm mx)) (\<lambda>own.
          case own of
            Skipped \<Rightarrow> Inr (Csg_node lv lno f ps cs hm mx, [])
          | Unmapped n1 \<Rightarrow>
              and_then (to_xcsg_children V False cs) (\<lambda>(cs', xs). Inr (with_children n1 cs', []))
          | Emitted n2 outer x \<Rightarrow>
              and_then (to_xcsg_children V True cs) (\<lambda>(cs', xs).
                Inr (with_children n2 cs', [finish outer (add_children x xs)]))))"
| "to_xcsg_children V parent_ok [] = Inr ([], [])"
| "to_xcsg_children V parent_ok (c # cs) =
     and_then (to_xcsg V parent_ok c) (\<lambda>(c', xs).
       and_then (to_xcsg_children V parent_ok cs) (\<lambda>(cs', ys). Inr (c' # cs', xs @ ys)))"

subsection \<open>A value library for the examples\<close>

text \<open>
  One instance of the operations of \<^verbatim>\<open>csg_value\<close>, used where a property is shown on a
  concrete tree: a value is a number, a text or a vector of values.
\<close>

datatype example_value = Number real | Text string | Vector "example_value list"

definition example_ops :: "example_value csg_value_ops" where
  "example_ops =
     \<lparr> v_parse = (\<lambda>s lno. if s = [] then None else Some (Text s)),
       v_size = (\<lambda>v. case v of Vector vs \<Rightarrow> length vs | _ \<Rightarrow> 1),
       v_get = (\<lambda>v i. case v of Vector vs \<Rightarrow> (if i < length vs then vs ! i else Text []) | _ \<Rightarrow> v),
       v_is_vector = (\<lambda>v. case v of Vector vs \<Rightarrow> True | _ \<Rightarrow> False),
       v_to_double = (\<lambda>v. case v of Number x \<Rightarrow> x | _ \<Rightarrow> 0),
       v_to_int = (\<lambda>v. case v of Number x \<Rightarrow> \<lfloor>x\<rfloor> | _ \<Rightarrow> 0),
       v_to_bool = (\<lambda>v. case v of Text s \<Rightarrow> s = ''true'' | _ \<Rightarrow> False),
       v_to_string = (\<lambda>v. case v of Text s \<Rightarrow> s | _ \<Rightarrow> []) \<rparr>"

text \<open>A node as the constructor leaves it, with the parameters given as a list.\<close>

definition example_node ::
  "int \<Rightarrow> nat \<Rightarrow> string \<Rightarrow> (string \<times> example_value) list \<Rightarrow> example_value csg_node list \<Rightarrow>
   example_value csg_node" where
  "example_node level lno func pars children =
     Csg_node level lno func (map_of pars) children False csg_matrix_default"

text \<open>The twist of a node in degrees, as the specification speaks of it.\<close>

definition twist_degrees :: "'v csg_value_ops \<Rightarrow> 'v csg_node \<Rightarrow> real" where
  "twist_degrees V n = (case m_par n ''twist'' of Some t \<Rightarrow> v_to_double V t | None \<Rightarrow> 0)"

text \<open>Example nodes: a linear extrusion without twist, and one with a twist in degrees.\<close>

definition extrude_plain :: "example_value csg_node" where
  "extrude_plain =
     example_node 0 1 ''linear_extrude(height=10,center=false,scale=1)''
       [(''height'', Number 10), (''center'', Text ''false''), (''scale'', Number 1)]
       [example_node 1 2 ''circle(r=1)'' [(''r'', Number 1)] []]"

definition extrude_twist :: "string \<Rightarrow> real \<Rightarrow> example_value csg_node" where
  "extrude_twist literal t =
     example_node 0 1 (''linear_extrude(height=10,center=false,twist='' @ literal @ '',scale=1)'')
       [(''height'', Number 10), (''center'', Text ''false''), (''twist'', Number t), (''scale'', Number 1)]
       [example_node 1 2 ''circle(r=1)'' [(''r'', Number 1)] []]"

text \<open>
  The rotation by an angle about the X axis as a homogeneous matrix, and the product
  of two 4 by 4 matrices, as the specification speaks of them.
\<close>

definition rotation_x :: "real \<Rightarrow> csg_matrix" where
  "rotation_x a =
     (\<lambda>i j. if i = 1 \<and> j = 1 then cos a
            else if i = 1 \<and> j = 2 then - sin a
            else if i = 2 \<and> j = 1 then sin a
            else if i = 2 \<and> j = 2 then cos a
            else if i = j then 1 else 0)"

definition matrix_product :: "csg_matrix \<Rightarrow> csg_matrix \<Rightarrow> csg_matrix" where
  "matrix_product a b = (\<lambda>i j. \<Sum>k<4. a i k * b k j)"

text \<open>Example nodes: a rotate extrude, and the same with a transform already set.\<close>

definition rotate_plain :: "example_value csg_node" where
  "rotate_plain =
     example_node 0 1 ''rotate_extrude(angle=360)'' [(''angle'', Number 360)]
       [example_node 1 2 ''circle(r=1)'' [(''r'', Number 1)] []]"

definition rotate_with_matrix :: "example_value csg_node" where
  "rotate_with_matrix =
     Csg_node 0 1 ''rotate_extrude(angle=360)'' [''angle'' \<mapsto> Number 360] [] True
       (\<lambda>i j. real (4 * i + j))"

text \<open>Example nodes: an offset without radius and delta, a rotate extrude without angle.\<close>

definition offset_bare :: "example_value csg_node" where
  "offset_bare =
     example_node 0 1 ''offset(chamfer=false)'' [(''chamfer'', Text ''false'')]
       [example_node 1 2 ''circle(r=1)'' [(''r'', Number 1)] []]"

definition rotate_bare :: "example_value csg_node" where
  "rotate_bare =
     example_node 0 1 ''rotate_extrude(convexity=2)'' [(''convexity'', Number 2)]
       [example_node 1 2 ''circle(r=1)'' [(''r'', Number 1)] []]"

text \<open>
  Example nodes: a circle, a cube, a union without children and a root without children.
\<close>

definition circle_unit :: "example_value csg_node" where
  "circle_unit = example_node 1 2 ''circle(r=1)'' [(''r'', Number 1)] []"

definition cube_234 :: "example_value csg_node" where
  "cube_234 =
     example_node 1 3 ''cube(size=[2,3,4],center=true)''
       [(''size'', Vector [Number 2, Number 3, Number 4]), (''center'', Text ''true'')] []"

definition union_empty :: "example_value csg_node" where
  "union_empty = example_node 0 1 ''union()'' [] []"

definition root_empty :: "example_value csg_node" where
  "root_empty = example_node (- 1) 0 ''root()'' [] []"

text \<open>
  Example nodes: a difference and an intersection of one child, a difference without
  children, a minkowski of one child, and a minkowski of a cube and an empty group.
\<close>

definition difference_one :: "example_value csg_node" where
  "difference_one = example_node 0 1 ''difference()'' [] [cube_234]"

definition intersection_one :: "example_value csg_node" where
  "intersection_one = example_node 0 1 ''intersection()'' [] [circle_unit]"

definition difference_none :: "example_value csg_node" where
  "difference_none = example_node 0 1 ''difference()'' [] []"

definition minkowski_one :: "example_value csg_node" where
  "minkowski_one = example_node 0 1 ''minkowski()'' [] [cube_234]"

definition minkowski_padded :: "example_value csg_node" where
  "minkowski_padded =
     example_node 0 1 ''minkowski()'' [] [cube_234, example_node 1 4 ''group()'' [] []]"

text \<open>
  A dummy node as the specification defines it: a \<^verbatim>\<open>group\<close> node all of whose children
  are dummy, in particular one without children; and the number of the children of a
  node that are not dummy in that sense.
\<close>

fun spec_dummy :: "'v csg_node \<Rightarrow> bool" where
  "spec_dummy (Csg_node lv lno f ps cs hm mx) =
     (tag (Csg_node lv lno f ps cs hm mx) = ''group'' \<and> list_all spec_dummy cs)"

definition spec_size_children :: "'v csg_node \<Rightarrow> nat" where
  "spec_size_children n = length (filter (\<lambda>c. \<not> spec_dummy c) (m_children n))"

text \<open>
  Example nodes: the difference of an empty group and a cube, and the difference of a
  group that holds one empty group, and a cube.
\<close>

definition difference_padded :: "example_value csg_node" where
  "difference_padded =
     example_node 0 1 ''difference()'' []
       [example_node 1 2 ''group()'' [] [],
        example_node 1 3 ''cube(size=[2,3,4],center=true)''
          [(''size'', Vector [Number 2, Number 3, Number 4]), (''center'', Text ''true'')] []]"

definition difference_nested :: "example_value csg_node" where
  "difference_nested =
     example_node 0 1 ''difference()'' []
       [example_node 1 2 ''group()'' [] [example_node 2 3 ''group()'' [] []],
        example_node 1 4 ''cube(size=[2,3,4],center=true)''
          [(''size'', Vector [Number 2, Number 3, Number 4]), (''center'', Text ''true'')] []]"

text \<open>The test of the last two encoder branches: a tag of a boolean operator.\<close>

definition boolean_prefix :: "string \<Rightarrow> bool" where
  "boolean_prefix t \<longleftrightarrow>
     take 4 t = ''diff'' \<or> take 4 t = ''inte'' \<or> take 4 t = ''mink'' \<or>
     take 4 t = ''unio'' \<or> take 4 t = ''hull''"

text \<open>
  Example nodes: a union of a cube and a circle, and a union of two nodes with tags
  outside the table, one over a cube and one over a circle.
\<close>

definition union_mixed :: "example_value csg_node" where
  "union_mixed = example_node 0 1 ''union()'' [] [cube_234, circle_unit]"

definition union_unknown :: "example_value csg_node" where
  "union_unknown =
     example_node 0 1 ''union()'' []
       [example_node 1 2 ''fill()'' []
          [example_node 2 3 ''cube(size=[2,3,4],center=true)''
             [(''size'', Vector [Number 2, Number 3, Number 4]), (''center'', Text ''true'')] []],
        example_node 1 4 ''roof()'' [] [example_node 2 5 ''circle(r=1)'' [(''r'', Number 1)] []]]"

text \<open>Some counted child has the dimension \<open>k\<close>.\<close>

definition child_of_dimension :: "'v csg_node list \<Rightarrow> nat \<Rightarrow> bool" where
  "child_of_dimension cs k = list_ex (\<lambda>c. \<not> is_dummy c \<and> dimension c = Inr k) cs"

section \<open>Properties\<close>

lemma is_dummy_iff: "is_dummy n = (tag n = ''group'' \<and> m_children n = [])"
  by (cases n) simp

text \<open>
  C1: \<^verbatim>\<open>is_dummy\<close> answers true exactly for a \<^verbatim>\<open>group\<close> node without children. For
  the group that holds one empty group, all of whose children are dummy, it answers
  false.
\<close>

theorem C1_is_dummy_group_of_dummies:
  "is_dummy (Csg_node (-1) 1 ''group()'' Map.empty [] False csg_matrix_default) \<and>
   \<not> is_dummy (Csg_node (-1) 0 ''group()'' Map.empty
        [Csg_node 0 1 ''group()'' Map.empty [] False csg_matrix_default]
        False csg_matrix_default)"
  by (simp add: tag_def find_first_of_def)

subsection \<open>Positional parameters\<close>

lemma find_first_from_None: "find_first_from ds p s = None \<longleftrightarrow> set s \<inter> set ds = {}"
  by (induction s arbitrary: p) auto

lemma find_first_of_0_None: "find_first_of s ds 0 = None \<longleftrightarrow> set s \<inter> set ds = {}"
  by (simp add: find_first_of_def find_first_from_None)

lemma par_value_loop_set:
  "set (fst (par_value_loop param i inside val)) \<subseteq> insert CHR '' '' (set param)"
proof (induction param i inside val rule: par_value_loop.induct)
  case (1 param i inside val)
  show ?case
    apply (subst par_value_loop.simps)
    using 1 set_update_subset_insert [of param i "CHR '' ''"]
    by (auto split: if_splits)
qed

lemma par_value_set: "set (fst (par_value param istart)) \<subseteq> insert CHR '' '' (set param)"
  by (simp add: par_value_def par_value_loop_set)

lemma par_name_0: "par_name 0 = ''_p000''"
  by code_simp

lemma parse_params_loop_dom:
  "CHR ''='' \<notin> set params \<Longrightarrow>
   dom (parse_params_loop V lno iparam params pars) \<subseteq> insert (par_name iparam) (dom pars)"
proof (induction V lno iparam params pars rule: parse_params_loop.induct)
  case (1 V lno iparam params pars)
  show ?case
  proof (cases "length params > 0")
    case False
    then show ?thesis by (subst parse_params_loop.simps) auto
  next
    case True
    let ?p1 = "fst (par_value params 0)"
    let ?vs = "snd (par_value params 0)"
    let ?pars1 = "case v_parse V ?vs lno of Some v \<Rightarrow> pars(par_name iparam \<mapsto> v) | None \<Rightarrow> pars"
    let ?len = "length (par_name iparam) + 1 + length ?vs + 1"
    let ?rest = "if ?len \<le> length ?p1 then drop ?len ?p1 else []"
    from "1.prems" have none: "find_first_of params ''='' 0 = None"
      by (simp add: find_first_of_0_None)
    have "CHR ''='' \<notin> set ?p1"
      using par_value_set [of params 0] "1.prems" by auto
    then have rest: "CHR ''='' \<notin> set ?rest"
      by (auto dest: in_set_dropD)
    have step: "parse_params_loop V lno iparam params pars = parse_params_loop V lno iparam ?rest ?pars1"
      using True by (subst parse_params_loop.simps) (simp add: none Let_def)
    have "dom (parse_params_loop V lno iparam ?rest ?pars1) \<subseteq> insert (par_name iparam) (dom ?pars1)"
      by (rule "1.IH" [OF True refl refl refl refl refl refl, unfolded none option.case, OF rest])
    moreover have "dom ?pars1 \<subseteq> insert (par_name iparam) (dom pars)"
      by (auto split: option.splits)
    ultimately show ?thesis unfolding step by blast
  qed
qed

lemma tokenize_from_set:
  "\<forall>t \<in> set tokens. set t \<subseteq> set input \<Longrightarrow>
   \<forall>t \<in> set (tokenize_from input delimiters last_pos tokens). set t \<subseteq> set input"
proof (induction input delimiters last_pos tokens rule: tokenize_from.induct)
  case (1 input delimiters last_pos tokens)
  have sub: "set (take k (drop last_pos input)) \<subseteq> set input" for k
    by (meson in_set_takeD in_set_dropD subsetI)
  have sub': "set (drop last_pos input) \<subseteq> set input"
    by (simp add: set_drop_subset)
  show ?case
  proof (cases "find_first_of input delimiters last_pos")
    case None
    then show ?thesis
      using "1.prems" sub' by (subst tokenize_from.simps) auto
  next
    case (Some pos)
    have "\<forall>t \<in> set (if pos - last_pos > 0 then tokens @ [take (pos - last_pos) (drop last_pos input)]
                          else tokens). set t \<subseteq> set input"
      using "1.prems" sub by auto
    from "1.IH" [OF Some this] show ?thesis
      by (subst tokenize_from.simps) (simp add: Some)
  qed
qed

text \<open>
  C3: the parser stores every positional parameter it reaches under the name of
  position 0. When the parameter list holds no equals sign, \<open>_p000\<close> is the only name
  that can be bound: \<open>_p001\<close> and the later names are never used. For the list
  \<open>1,2\<close> the first value is bound to \<open>_p000\<close> and the second is not stored at all.
\<close>

theorem C3_positional_names:
  assumes "parse_params V lno func = Inr pars" and "CHR ''='' \<notin> set func"
  shows "dom pars \<subseteq> {''_p000''}"
proof -
  from assms(1) obtain index where ix: "find_first_of func ''('' 0 = Some index"
    by (auto simp: parse_params_def split: option.splits)
  show ?thesis
  proof (cases "tokenize (drop index func) ''()''")
    case Nil
    with assms(1) ix show ?thesis by (auto simp: parse_params_def)
  next
    case (Cons params rest)
    with assms(1) ix have pars: "pars = parse_params_loop V lno 0 params Map.empty"
      by (auto simp: parse_params_def)
    have "set params \<subseteq> set (drop index func)"
      using tokenize_from_set [of "[]" "drop index func" "''()''" 0] Cons
      by (simp add: tokenize_def)
    with assms(2) have "CHR ''='' \<notin> set params"
      by (auto dest: in_set_dropD)
    from parse_params_loop_dom [OF this, of V lno 0 Map.empty] show ?thesis
      by (simp add: pars par_name_0)
  qed
qed


theorem C3_positional_names_witness:
  "parse_params example_ops 1 ''multmatrix(1,2)'' = Inr [''_p000'' \<mapsto> Text ''1''] \<and>
   CHR ''='' \<notin> set ''multmatrix(1,2)'' \<and>
   dom [''_p000'' \<mapsto> Text ''1''] \<subseteq> {''_p000''} \<and>
   [''_p000'' \<mapsto> Text ''1''] ''_p001'' = None"
proof -
  have ev: "parse_params example_ops 1 ''multmatrix(1,2)'' = Inr [''_p000'' \<mapsto> Text ''1'']"
    by (simp add: parse_params_def find_first_of_def tokenize_def tokenize_from.simps
          parse_params_loop.simps par_value_def par_value_loop.simps par_name_0 example_ops_def Let_def)
  have eq: "CHR ''='' \<notin> set ''multmatrix(1,2)''" by simp
  from C3_positional_names [OF ev eq] ev eq show ?thesis by simp
qed

subsection \<open>Rounding to double precision\<close>

lemma pow2_powr: "pow2 e = 2 powr (of_int e)"
  by (simp add: pow2_def powr_int)

lemma pow2_pos: "0 < pow2 e"
  by (simp add: pow2_powr)

lemma pow2_add: "pow2 (a + b) = pow2 a * pow2 b"
  by (simp add: pow2_powr powr_add)

lemma round_half_even_error: "\<bar>of_int (round_half_even x) - x\<bar> \<le> 1 / 2"
  unfolding round_half_even_def by (auto simp: abs_le_iff)

lemma round_half_even_eq: "\<bar>x - of_int r\<bar> < 1 / 2 \<Longrightarrow> round_half_even x = r"
proof -
  assume a: "\<bar>x - of_int r\<bar> < 1 / 2"
  have e: "\<bar>of_int (round_half_even x) - x\<bar> \<le> 1 / 2" by (rule round_half_even_error)
  from a e have "\<bar>real_of_int (round_half_even x) - real_of_int r\<bar> < 1" by linarith
  then have "\<bar>real_of_int (round_half_even x - r)\<bar> < 1" by simp
  then have "\<bar>round_half_even x - r\<bar> < 1" by linarith
  then show ?thesis by simp
qed

lemma round_half_even_nonneg: "0 \<le> x \<Longrightarrow> 0 \<le> round_half_even x"
  by (simp add: round_half_even_def)

lemma double_exponent_eq:
  assumes "pow2 k \<le> \<bar>x\<bar>" and "\<bar>x\<bar> < pow2 (k + 1)" and "- 1022 \<le> k"
  shows "double_exponent x = k"
proof -
  from assms(1) have pos: "0 < \<bar>x\<bar>" using pow2_pos [of k] by linarith
  have "\<lfloor>log 2 \<bar>x\<bar>\<rfloor> = k"
    using assms(1,2) pos by (simp add: floor_log_eq_powr_iff pow2_powr)
  with assms(3) show ?thesis by (simp add: double_exponent_def)
qed

lemma double_exponent_subnormal:
  assumes "x \<noteq> 0" and "\<bar>x\<bar> < pow2 (- 1022)"
  shows "double_exponent x = - 1022"
proof -
  from assms have "log 2 \<bar>x\<bar> < of_int (- 1022)"
    by (simp add: log_less_iff pow2_powr)
  then have "\<lfloor>log 2 \<bar>x\<bar>\<rfloor> < - 1022"
    by (simp only: floor_less_iff)
  then show ?thesis by (simp add: double_exponent_def)
qed

text \<open>
  The evaluation of a rounding: the exponent \<open>k\<close> of the value and the integer \<open>r\<close>
  nearest to the value in units of the last place.
\<close>

lemma round_double_eq:
  assumes "pow2 k \<le> \<bar>x\<bar>" and "\<bar>x\<bar> < pow2 (k + 1)" and "- 1022 \<le> k"
    and "\<bar>x / pow2 (k - 52) - of_int r\<bar> < 1 / 2"
  shows "round_double x = of_int r * pow2 (k - 52)"
proof -
  from assms(1) have "x \<noteq> 0" using pow2_pos [of k] by auto
  then show ?thesis
    by (simp add: round_double_def double_exponent_eq [OF assms(1-3)]
          round_half_even_eq [OF assms(4)])
qed

lemma round_double_subnormal:
  assumes "x \<noteq> 0" and "\<bar>x\<bar> < pow2 (- 1022)"
    and "\<bar>x / pow2 (- 1074) - of_int r\<bar> < 1 / 2"
  shows "round_double x = of_int r * pow2 (- 1074)"
  using assms(1)
  by (simp add: round_double_def double_exponent_subnormal [OF assms(1,2)]
        round_half_even_eq [OF assms(3)])

text \<open>
  The error of a rounding: at most the fraction \<^verbatim>\<open>2^-53\<close> of the value, or
  \<open>double_tiny\<close> among the smallest doubles.
\<close>

lemma round_double_error: "\<bar>round_double x - x\<bar> \<le> \<bar>x\<bar> / 2 ^ 53 + double_tiny"
proof (cases "x = 0")
  case True
  then show ?thesis by (simp add: round_double_def double_tiny_def)
next
  case False
  define e where "e = double_exponent x"
  define s where "s = pow2 (e - 52)"
  have s: "0 < s" by (simp add: s_def pow2_pos)
  have fl: "round_double x = of_int (round_half_even (x / s)) * s"
    using False by (simp add: round_double_def e_def s_def)
  have "round_double x - x = (of_int (round_half_even (x / s)) - x / s) * s"
    using s by (simp add: fl left_diff_distrib)
  then have "\<bar>round_double x - x\<bar> = \<bar>of_int (round_half_even (x / s)) - x / s\<bar> * s"
    using s by (simp only: abs_mult)
  also have "\<dots> \<le> 1 / 2 * s"
    using round_half_even_error [of "x / s"] s by (intro mult_right_mono) auto
  finally have err: "\<bar>round_double x - x\<bar> \<le> s / 2" by simp
  have half: "s / 2 = pow2 e / 2 ^ 53"
    using pow2_add [of e "- 52"] by (simp add: s_def pow2_def)
  show ?thesis
  proof (cases "- 1022 \<le> \<lfloor>log 2 \<bar>x\<bar>\<rfloor>")
    case True
    then have "e = \<lfloor>log 2 \<bar>x\<bar>\<rfloor>" by (simp add: e_def double_exponent_def)
    then have "pow2 e \<le> \<bar>x\<bar>"
      using False floor_log_eq_powr_iff [of "\<bar>x\<bar>" 2 e] by (simp add: pow2_powr)
    then have "s / 2 \<le> \<bar>x\<bar> / 2 ^ 53"
      unfolding half by (simp add: divide_right_mono)
    with err show ?thesis by (simp add: double_tiny_def)
  next
    case False
    then have "e = - 1022" by (simp add: e_def double_exponent_def)
    then have "s / 2 = double_tiny"
      by (simp add: half double_tiny_def pow2_def power_add [symmetric])
    with err show ?thesis by simp
  qed
qed

lemma round_double_abs_bounds:
  "\<bar>round_double x\<bar> \<le> \<bar>x\<bar> * (1 + 1 / 2 ^ 53) + double_tiny"
  "\<bar>x\<bar> * (1 - 1 / 2 ^ 53) - double_tiny \<le> \<bar>round_double x\<bar>"
  using round_double_error [of x] by (simp_all add: algebra_simps)

lemma round_double_nonneg: "0 \<le> x \<Longrightarrow> 0 \<le> round_double x"
  using pow2_pos by (simp add: round_double_def round_half_even_nonneg less_imp_le)

lemma double_tiny_bounds: "0 < double_tiny" "double_tiny \<le> 1 / 2 ^ 100"
proof -
  show "0 < double_tiny" by (simp add: double_tiny_def)
  have "(2::real) ^ 100 \<le> 2 ^ 1075" by (rule power_increasing) simp_all
  then show "double_tiny \<le> 1 / 2 ^ 100"
    unfolding double_tiny_def by (intro divide_left_mono) simp_all
qed

text \<open>Rounding is odd and monotone.\<close>

lemma round_half_even_of_int: "round_half_even (of_int k) = k"
  by (simp add: round_half_even_def)

lemma round_half_even_mono: "x \<le> y \<Longrightarrow> round_half_even x \<le> round_half_even y"
proof -
  assume xy: "x \<le> y"
  then have fl: "\<lfloor>x\<rfloor> \<le> \<lfloor>y\<rfloor>" by (rule floor_mono)
  show ?thesis
  proof (cases "\<lfloor>x\<rfloor> = \<lfloor>y\<rfloor>")
    case True
    with xy show ?thesis
      unfolding round_half_even_def by (auto simp: True)
  next
    case False
    with fl have "\<lfloor>x\<rfloor> + 1 \<le> \<lfloor>y\<rfloor>" by simp
    moreover have "round_half_even x \<le> \<lfloor>x\<rfloor> + 1"
      by (simp add: round_half_even_def)
    moreover have "\<lfloor>y\<rfloor> \<le> round_half_even y"
      by (simp add: round_half_even_def)
    ultimately show ?thesis by linarith
  qed
qed

lemma round_half_even_minus: "round_half_even (- x) = - round_half_even x"
proof (cases "x = of_int \<lfloor>x\<rfloor>")
  case True
  then obtain k where x: "x = of_int k" ..
  have "round_half_even (of_int (- k)) = - k" by (rule round_half_even_of_int)
  then show ?thesis by (simp add: x round_half_even_of_int)
next
  case False
  then have lt: "of_int \<lfloor>x\<rfloor> < x"
    using of_int_floor_le [of x] by linarith
  have up: "x < of_int \<lfloor>x\<rfloor> + 1" by linarith
  have f: "\<lfloor>- x\<rfloor> = - \<lfloor>x\<rfloor> - 1"
  proof (rule floor_unique)
    show "of_int (- \<lfloor>x\<rfloor> - 1) \<le> - x" using up by (simp only: of_int_diff of_int_minus of_int_1; linarith)
    show "- x < of_int (- \<lfloor>x\<rfloor> - 1) + 1" using lt by (simp only: of_int_diff of_int_minus of_int_1; linarith)
  qed
  show ?thesis
    unfolding round_half_even_def f using lt by auto
qed

lemma pow2_mono: "a \<le> b \<Longrightarrow> pow2 a \<le> pow2 b"
  by (simp add: pow2_powr)

lemma double_exponent_minus: "double_exponent (- x) = double_exponent x"
  by (simp add: double_exponent_def)

lemma round_double_minus: "round_double (- x) = - round_double x"
  by (simp add: round_double_def double_exponent_minus round_half_even_minus)

lemma round_double_abs: "\<bar>round_double x\<bar> = round_double \<bar>x\<bar>"
proof (cases "0 \<le> x")
  case True
  then show ?thesis using round_double_nonneg [of x] by simp
next
  case False
  then have "0 \<le> - x" by simp
  from round_double_nonneg [OF this] False show ?thesis
    by (simp add: round_double_minus)
qed

lemma double_exponent_upper:
  assumes "x \<noteq> 0"
  shows "\<bar>x\<bar> < pow2 (double_exponent x + 1)"
proof -
  from assms have pos: "0 < \<bar>x\<bar>" by simp
  have "\<bar>x\<bar> < pow2 (\<lfloor>log 2 \<bar>x\<bar>\<rfloor> + 1)"
    using pos floor_log_eq_powr_iff [of "\<bar>x\<bar>" 2 "\<lfloor>log 2 \<bar>x\<bar>\<rfloor>"] by (simp add: pow2_powr)
  also have "\<dots> \<le> pow2 (double_exponent x + 1)"
    by (rule pow2_mono) (simp add: double_exponent_def)
  finally show ?thesis .
qed

lemma double_exponent_lower:
  assumes "x \<noteq> 0" and "- 1022 < double_exponent x"
  shows "pow2 (double_exponent x) \<le> \<bar>x\<bar>"
proof -
  from assms have pos: "0 < \<bar>x\<bar>" by simp
  from assms(2) have e: "double_exponent x = \<lfloor>log 2 \<bar>x\<bar>\<rfloor>"
    by (simp add: double_exponent_def max_def split: if_splits)
  show ?thesis
    unfolding e using pos floor_log_eq_powr_iff [of "\<bar>x\<bar>" 2 "\<lfloor>log 2 \<bar>x\<bar>\<rfloor>"] by (simp add: pow2_powr)
qed

lemma double_exponent_mono:
  assumes "0 < x" and "x \<le> y"
  shows "double_exponent x \<le> double_exponent y"
proof -
  from assms have "log 2 \<bar>x\<bar> \<le> log 2 \<bar>y\<bar>" by simp
  then have "\<lfloor>log 2 \<bar>x\<bar>\<rfloor> \<le> \<lfloor>log 2 \<bar>y\<bar>\<rfloor>" by (rule floor_mono)
  then show ?thesis by (simp add: double_exponent_def)
qed

lemma pow2_52: "pow2 (e - 52) * 2 ^ 52 = pow2 e" "pow2 (e - 52) * 2 ^ 53 = pow2 (e + 1)"
proof -
  have a: "e - 52 + 52 = e" and b: "e - 52 + 53 = e + 1" by simp_all
  have c: "pow2 52 = 2 ^ 52" and d: "pow2 53 = 2 ^ 53" by (simp_all add: pow2_def)
  show "pow2 (e - 52) * 2 ^ 52 = pow2 e"
    using pow2_add [of "e - 52" 52, unfolded a c] by (rule sym)
  show "pow2 (e - 52) * 2 ^ 53 = pow2 (e + 1)"
    using pow2_add [of "e - 52" 53, unfolded b d] by (rule sym)
qed

lemma round_double_upper:
  assumes "0 < x"
  shows "round_double x \<le> pow2 (double_exponent x + 1)"
proof -
  define s where "s = pow2 (double_exponent x - 52)"
  have s: "0 < s" by (simp add: s_def pow2_pos)
  have rd: "round_double x = real_of_int (round_half_even (x / s)) * s"
    using assms by (simp add: round_double_def s_def)
  have top: "2 ^ 53 * s = pow2 (double_exponent x + 1)"
    unfolding s_def using pow2_52(2) [of "double_exponent x"] by (simp only: mult.commute)
  have "x < s * 2 ^ 53"
    unfolding s_def pow2_52 using assms double_exponent_upper [of x] by simp
  then have "x / s \<le> of_int (2 ^ 53)"
    using s by (simp add: field_simps)
  then have "round_half_even (x / s) \<le> round_half_even (of_int (2 ^ 53))"
    by (rule round_half_even_mono)
  then have "round_half_even (x / s) \<le> 2 ^ 53"
    by (simp only: round_half_even_of_int)
  then have "real_of_int (round_half_even (x / s)) \<le> 2 ^ 53"
    by (metis of_int_le_iff of_int_numeral of_int_power)
  then have "real_of_int (round_half_even (x / s)) * s \<le> 2 ^ 53 * s"
    using s by (simp only: mult_le_cancel_right_pos)
  then show ?thesis
    unfolding rd top .
qed

lemma round_double_lower:
  assumes "0 < x" and "- 1022 < double_exponent x"
  shows "pow2 (double_exponent x) \<le> round_double x"
proof -
  define s where "s = pow2 (double_exponent x - 52)"
  have s: "0 < s" by (simp add: s_def pow2_pos)
  have rd: "round_double x = real_of_int (round_half_even (x / s)) * s"
    using assms by (simp add: round_double_def s_def)
  have bot: "2 ^ 52 * s = pow2 (double_exponent x)"
    unfolding s_def using pow2_52(1) [of "double_exponent x"] by (simp only: mult.commute)
  have "s * 2 ^ 52 \<le> x"
    unfolding s_def pow2_52 using assms double_exponent_lower [of x] by simp
  then have "of_int (2 ^ 52) \<le> x / s"
    using s by (simp add: field_simps)
  then have "round_half_even (of_int (2 ^ 52)) \<le> round_half_even (x / s)"
    by (rule round_half_even_mono)
  then have "2 ^ 52 \<le> round_half_even (x / s)"
    by (simp only: round_half_even_of_int)
  then have "2 ^ 52 \<le> real_of_int (round_half_even (x / s))"
    by (metis of_int_le_iff of_int_numeral of_int_power)
  then have "2 ^ 52 * s \<le> real_of_int (round_half_even (x / s)) * s"
    using s by (simp only: mult_le_cancel_right_pos)
  then show ?thesis
    unfolding rd bot .
qed

lemma round_double_mono:
  assumes "0 \<le> x" and "x \<le> y"
  shows "round_double x \<le> round_double y"
proof (cases "x = 0")
  case True
  with assms round_double_nonneg [of y] show ?thesis by (simp add: round_double_def)
next
  case False
  with assms have x: "0 < x" and y: "0 < y" by simp_all
  from double_exponent_mono [OF x assms(2)]
  have e: "double_exponent x \<le> double_exponent y" .
  show ?thesis
  proof (cases "double_exponent x = double_exponent y")
    case True
    define s where "s = pow2 (double_exponent y - 52)"
    have s: "0 < s" by (simp add: s_def pow2_pos)
    from assms(2) s have "x / s \<le> y / s" by (simp add: divide_right_mono)
    then have "round_half_even (x / s) \<le> round_half_even (y / s)"
      by (rule round_half_even_mono)
    then have "real_of_int (round_half_even (x / s)) * s \<le> real_of_int (round_half_even (y / s)) * s"
      using s by simp
    with x y show ?thesis
      by (simp add: round_double_def True s_def)
  next
    case False
    with e have lt: "double_exponent x + 1 \<le> double_exponent y" by simp
    have "- 1022 \<le> double_exponent x" by (simp add: double_exponent_def)
    with lt have n: "- 1022 < double_exponent y" by simp
    have "round_double x \<le> pow2 (double_exponent x + 1)"
      using x by (rule round_double_upper)
    also have "\<dots> \<le> pow2 (double_exponent y)"
      using lt by (rule pow2_mono)
    also have "\<dots> \<le> round_double y"
      using y n by (rule round_double_lower)
    finally show ?thesis .
  qed
qed

text \<open>A double below 10 is at most \<^verbatim>\<open>10 - 2^-49\<close>, the largest double below 10.\<close>

lemma double_below_10:
  assumes "round_double t = t" and "\<bar>t\<bar> < 10"
  shows "\<bar>t\<bar> \<le> 10 - 1 / 2 ^ 49"
proof (rule ccontr)
  assume "\<not> \<bar>t\<bar> \<le> 10 - 1 / 2 ^ 49"
  then have lo: "10 - 1 / 2 ^ 49 < \<bar>t\<bar>" by simp
  define x where "x = \<bar>t\<bar>"
  have fx: "round_double x = x"
    unfolding x_def using assms(1) round_double_abs [of t] by simp
  have x: "10 - 1 / 2 ^ 49 < x" "x < 10"
    using lo assms(2) by (simp_all add: x_def)
  have e: "double_exponent x = 3"
    by (rule double_exponent_eq) (use x in \<open>simp_all add: pow2_def\<close>)
  have nz: "x \<noteq> 0" using x(1) by auto
  define n where "n = round_half_even (x / pow2 (3 - 52))"
  have "round_double x = of_int n * pow2 (3 - 52)"
    using nz by (simp add: round_double_def e n_def)
  then have xn: "x = of_int n / 2 ^ 49"
    unfolding fx by (simp add: pow2_def)
  from x(1) have "10 * 2 ^ 49 - 1 < real_of_int n"
    unfolding xn by (simp add: field_simps)
  then have a: "10 * 2 ^ 49 - 1 < n" by simp
  from x(2) have "real_of_int n < 10 * 2 ^ 49"
    unfolding xn by (simp add: field_simps)
  then have b: "n < 10 * 2 ^ 49" by simp
  from a b show False by simp
qed

lemma round_double_5: "round_double 5 = 5"
proof -
  have "round_double 5 = of_int 5629499534213120 * pow2 (2 - 52)"
    by (rule round_double_eq) (simp_all add: pow2_def)
  then show ?thesis by (simp add: pow2_def)
qed

text \<open>\<^verbatim>\<open>2*pi\<close> is exact.\<close>

lemma round_double_two_pi: "round_double (2 * csg_pi) = 2 * csg_pi"
proof -
  have "round_double (2 * csg_pi) = of_int 7074237752028440 * pow2 (2 - 52)"
    by (rule round_double_eq) (simp_all add: csg_pi_def pow2_def)
  then show ?thesis by (simp add: csg_pi_def pow2_def)
qed

subsection \<open>Segments of the sweep\<close>

lemma twist_radians_zero: "twist_radians 0 = 0"
  by (simp add: twist_radians_def round_double_def)

lemma sweep_twist_degrees: "sweep_twist V n = twist_radians (twist_degrees V n)"
  by (simp add: sweep_twist_def twist_degrees_def twist_radians_zero split: option.splits)

text \<open>
  The twist in radians and the quotient grow with the size of the twist in degrees.
\<close>

lemma twist_radians_abs:
  "\<bar>twist_radians t\<bar> = round_double (round_double (\<bar>t\<bar> * csg_pi) / 180)"
proof -
  have "\<bar>- t * csg_pi\<bar> = \<bar>t\<bar> * csg_pi"
    by (simp add: abs_mult csg_pi_def)
  then have "\<bar>round_double (- t * csg_pi) / 180\<bar> = round_double (\<bar>t\<bar> * csg_pi) / 180"
    by (simp add: round_double_abs)
  then show ?thesis
    by (simp only: twist_radians_def round_double_abs)
qed

lemma twist_radians_mono:
  assumes "\<bar>t\<bar> \<le> \<bar>u\<bar>"
  shows "\<bar>twist_radians t\<bar> \<le> \<bar>twist_radians u\<bar>"
proof -
  have p: "0 \<le> csg_pi" by (simp add: csg_pi_def)
  have "round_double (\<bar>t\<bar> * csg_pi) \<le> round_double (\<bar>u\<bar> * csg_pi)"
    using assms p by (intro round_double_mono mult_right_mono mult_nonneg_nonneg) simp_all
  then have le: "round_double (\<bar>t\<bar> * csg_pi) / 180 \<le> round_double (\<bar>u\<bar> * csg_pi) / 180"
    by simp
  have "0 \<le> round_double (\<bar>t\<bar> * csg_pi)"
    using p by (intro round_double_nonneg mult_nonneg_nonneg) simp_all
  then have nn: "0 \<le> round_double (\<bar>t\<bar> * csg_pi) / 180"
    by simp
  from round_double_mono [OF nn le] show ?thesis
    unfolding twist_radians_abs .
qed

lemma sweep_quotient_mono:
  assumes "\<bar>v\<bar> \<le> \<bar>w\<bar>"
  shows "sweep_quotient v \<le> sweep_quotient w"
proof -
  have p: "0 \<le> 2 * csg_pi" by (simp add: csg_pi_def)
  have "round_double (36 * \<bar>v\<bar>) \<le> round_double (36 * \<bar>w\<bar>)"
    using assms by (intro round_double_mono) simp_all
  then have le: "round_double (36 * \<bar>v\<bar>) / (2 * csg_pi) \<le> round_double (36 * \<bar>w\<bar>) / (2 * csg_pi)"
    using p by (rule divide_right_mono)
  have "0 \<le> round_double (36 * \<bar>v\<bar>)"
    by (intro round_double_nonneg) simp
  then have nn: "0 \<le> round_double (36 * \<bar>v\<bar>) / (2 * csg_pi)"
    using p by (rule divide_nonneg_nonneg)
  from round_double_mono [OF nn le] show ?thesis
    unfolding sweep_quotient_def round_double_two_pi .
qed

text \<open>
  The smallest twist in degrees that is not rounded to zero radians is 29 times
  \<^verbatim>\<open>2^-1074\<close>, the smallest double above zero.
\<close>

lemma twist_radians_29: "\<bar>twist_radians (29 / 2 ^ 1074)\<bar> = 1 / 2 ^ 1074"
proof -
  have a: "round_double (\<bar>29 / 2 ^ 1074\<bar> * csg_pi) = of_int 91 * pow2 (- 1074)"
    by (rule round_double_subnormal) (simp_all add: csg_pi_def pow2_def)
  have b: "round_double (of_int 91 * pow2 (- 1074) / 180) = of_int 1 * pow2 (- 1074)"
    by (rule round_double_subnormal) (simp_all add: pow2_def)
  show ?thesis
    unfolding twist_radians_abs a b by (simp add: pow2_def)
qed

lemma twist_radians_28: "twist_radians (28 / 2 ^ 1074) = 0"
proof -
  have a: "round_double (\<bar>28 / 2 ^ 1074\<bar> * csg_pi) = of_int 88 * pow2 (- 1074)"
    by (rule round_double_subnormal) (simp_all add: csg_pi_def pow2_def)
  have b: "round_double (of_int 88 * pow2 (- 1074) / 180) = of_int 0 * pow2 (- 1074)"
    by (rule round_double_subnormal) (simp_all add: pow2_def)
  have "\<bar>twist_radians (28 / 2 ^ 1074)\<bar> = 0"
    unfolding twist_radians_abs a b by simp
  then show ?thesis by simp
qed

lemma twist_radians_pos:
  assumes "29 / 2 ^ 1074 \<le> \<bar>t\<bar>"
  shows "0 < \<bar>twist_radians t\<bar>"
proof -
  have "\<bar>29 / 2 ^ 1074 :: real\<bar> \<le> \<bar>t\<bar>"
    using assms by simp
  then have "\<bar>twist_radians (29 / 2 ^ 1074)\<bar> \<le> \<bar>twist_radians t\<bar>"
    by (rule twist_radians_mono)
  then show ?thesis
    unfolding twist_radians_29 by simp
qed

lemma twist_radians_underflow:
  assumes "\<bar>t\<bar> \<le> 28 / 2 ^ 1074"
  shows "twist_radians t = 0"
proof -
  have "\<bar>t\<bar> \<le> \<bar>28 / 2 ^ 1074 :: real\<bar>"
    using assms by simp
  then have "\<bar>twist_radians t\<bar> \<le> \<bar>twist_radians (28 / 2 ^ 1074)\<bar>"
    by (rule twist_radians_mono)
  then show ?thesis
    unfolding twist_radians_28 by simp
qed

text \<open>
  The quotient of a twist of \<open>t\<close> degrees is a tenth of \<open>\<bar>t\<bar>\<close> up to the error of
  four roundings.
\<close>

lemma sweep_quotient_bounds:
  fixes t :: real
  defines "q \<equiv> sweep_quotient (twist_radians t)"
  shows "q \<le> \<bar>t\<bar> / 10 * (1 + 1 / 2 ^ 50) + 100 * double_tiny"
    and "\<bar>t\<bar> / 10 * (1 - 1 / 2 ^ 50) - 100 * double_tiny \<le> q"
    and "0 \<le> q"
proof -
  define a where "a = round_double (- t * csg_pi)"
  define b where "b = round_double (a / 180)"
  define c where "c = round_double (36 * \<bar>b\<bar>)"
  have q: "q = round_double (c / (2 * csg_pi))"
    by (simp add: q_def sweep_quotient_def twist_radians_def c_def b_def a_def
          round_double_two_pi)
  have x1: "\<bar>- t * csg_pi\<bar> = \<bar>t\<bar> * csg_pi"
    by (simp add: abs_mult csg_pi_def)
  have x2: "\<bar>a / 180\<bar> = \<bar>a\<bar> / 180" by simp
  have x3: "\<bar>36 * \<bar>b\<bar>\<bar> = 36 * \<bar>b\<bar>" by simp
  have x4: "\<bar>c / (2 * csg_pi)\<bar> = \<bar>c\<bar> / (2 * csg_pi)"
    by (simp add: csg_pi_def)
  note ba = round_double_abs_bounds [of "- t * csg_pi", folded a_def, unfolded x1]
  note bb = round_double_abs_bounds [of "a / 180", folded b_def, unfolded x2]
  note bc = round_double_abs_bounds [of "36 * \<bar>b\<bar>", folded c_def, unfolded x3]
  note bq = round_double_abs_bounds [of "c / (2 * csg_pi)", folded q, unfolded x4]
  have cpos: "0 \<le> c"
    unfolding c_def by (rule round_double_nonneg) simp
  then have qpos: "0 \<le> q"
    unfolding q by (intro round_double_nonneg) (simp add: csg_pi_def)
  have T: "0 \<le> \<bar>t\<bar>" by simp
  show "q \<le> \<bar>t\<bar> / 10 * (1 + 1 / 2 ^ 50) + 100 * double_tiny"
    using ba(1) bb(1) bc(1) bq(1) double_tiny_bounds(1) T cpos qpos
    unfolding csg_pi_def by simp
  show "\<bar>t\<bar> / 10 * (1 - 1 / 2 ^ 50) - 100 * double_tiny \<le> q"
    using ba(2) bb(2) bc(2) bq(2) double_tiny_bounds(1) T cpos qpos
    unfolding csg_pi_def by simp
  show "0 \<le> q" by (rule qpos)
qed

lemma sweep_quotient_from_10:
  assumes "10 \<le> \<bar>t\<bar>"
  shows "\<bar>t\<bar> / 10 * (1 - 1 / 2 ^ 49) \<le> sweep_quotient (twist_radians t)"
    and "sweep_quotient (twist_radians t) \<le> \<bar>t\<bar> / 10 * (1 + 1 / 2 ^ 49)"
  using sweep_quotient_bounds(1,2) [of t] assms double_tiny_bounds by simp_all

lemma sweep_quotient_nonneg: "0 \<le> sweep_quotient tw"
  unfolding sweep_quotient_def round_double_two_pi
  by (intro round_double_nonneg divide_nonneg_nonneg) (simp_all add: csg_pi_def)

text \<open>
  The segment count of a twist of \<open>t\<close> degrees that is neither rounded to zero nor
  beyond the range of \<^verbatim>\<open>int\<close>: the integer part of the quotient, or the slice count.
\<close>

lemma sweep_nseg_twist:
  assumes "29 / 2 ^ 1074 \<le> \<bar>t\<bar>" and "\<bar>t\<bar> < 21474836470"
  shows "sweep_nseg (twist_radians t) s =
           Inr (if s > 0 \<and> s > \<lfloor>sweep_quotient (twist_radians t)\<rfloor> then s
                else \<lfloor>sweep_quotient (twist_radians t)\<rfloor>)"
proof -
  note q = sweep_quotient_bounds [of t]
  have "sweep_quotient (twist_radians t) < 2147483648"
    using q(1) assms(2) double_tiny_bounds by simp
  with q(3) twist_radians_pos [OF assms(1)] show ?thesis
    by (simp add: sweep_nseg_def double_to_int_def)
qed

lemma sweep_nseg_no_slices:
  assumes "1 \<le> \<bar>t\<bar>" and "\<bar>t\<bar> < 21474836470"
  shows "sweep_nseg (twist_radians t) (- 1) = Inr \<lfloor>sweep_quotient (twist_radians t)\<rfloor>"
proof -
  have "(29::real) / 2 ^ 1074 \<le> 1" by simp
  with assms(1) have "29 / 2 ^ 1074 \<le> \<bar>t\<bar>" by linarith
  from sweep_nseg_twist [OF this assms(2)] show ?thesis by simp
qed

lemma twist_radians_eval:
  "round_double (- t * csg_pi) = a \<Longrightarrow> round_double (a / 180) = b \<Longrightarrow> twist_radians t = b"
  by (simp add: twist_radians_def)

lemma sweep_quotient_eval:
  "round_double (36 * \<bar>tw\<bar>) = c \<Longrightarrow> round_double (c / (2 * csg_pi)) = q \<Longrightarrow>
   sweep_quotient tw = q"
  by (simp add: sweep_quotient_def round_double_two_pi)

text \<open>
  The four roundings at a twist of 360 degrees and at a twist of 250 degrees: the
  quotient is 36 at the first, and the largest double below 25 at the second.
\<close>

lemma sweep_quotient_360: "sweep_quotient (twist_radians 360) = 36"
proof -
  have a: "round_double (- 360 * csg_pi) = of_int (- 4974073419394997) * pow2 (10 - 52)"
    by (rule round_double_eq) (simp_all add: csg_pi_def pow2_def)
  have b: "round_double (of_int (- 4974073419394997) * pow2 (10 - 52) / 180) =
             of_int (- 7074237752028440) * pow2 (2 - 52)"
    by (rule round_double_eq) (simp_all add: pow2_def)
  have c: "round_double (36 * \<bar>of_int (- 7074237752028440) * pow2 (2 - 52)\<bar>) =
             of_int 7958517471031995 * pow2 (7 - 52)"
    by (rule round_double_eq) (simp_all add: pow2_def)
  have q: "round_double (of_int 7958517471031995 * pow2 (7 - 52) / (2 * csg_pi)) =
             of_int 5066549580791808 * pow2 (5 - 52)"
    by (rule round_double_eq) (simp_all add: csg_pi_def pow2_def)
  have "sweep_quotient (twist_radians 360) = of_int 5066549580791808 * pow2 (5 - 52)"
    unfolding twist_radians_eval [OF a b] by (rule sweep_quotient_eval [OF c q])
  then show ?thesis by (simp add: pow2_def)
qed

lemma sweep_quotient_250: "sweep_quotient (twist_radians 250) = 25 - 1 / 2 ^ 48"
proof -
  have a: "round_double (- 250 * csg_pi) = of_int (- 6908435304715273) * pow2 (9 - 52)"
    by (rule round_double_eq) (simp_all add: csg_pi_def pow2_def)
  have b: "round_double (of_int (- 6908435304715273) * pow2 (9 - 52) / 180) =
             of_int (- 4912665105575305) * pow2 (2 - 52)"
    by (rule round_double_eq) (simp_all add: pow2_def)
  have c: "round_double (36 * \<bar>of_int (- 4912665105575305) * pow2 (2 - 52)\<bar>) =
             of_int 5526748243772218 * pow2 (7 - 52)"
    by (rule round_double_eq) (simp_all add: pow2_def)
  have q: "round_double (of_int 5526748243772218 * pow2 (7 - 52) / (2 * csg_pi)) =
             of_int 7036874417766399 * pow2 (4 - 52)"
    by (rule round_double_eq) (simp_all add: csg_pi_def pow2_def)
  have "sweep_quotient (twist_radians 250) = of_int 7036874417766399 * pow2 (4 - 52)"
    unfolding twist_radians_eval [OF a b] by (rule sweep_quotient_eval [OF c q])
  then show ?thesis by (simp add: pow2_def)
qed

text \<open>
  The largest double below 10: the quotient is the largest double below 1. So the
  quotient of every twist up to there is below 1.
\<close>

lemma sweep_quotient_below_10: "sweep_quotient (twist_radians (10 - 1 / 2 ^ 49)) = 1 - 1 / 2 ^ 53"
proof -
  have a: "round_double (- (10 - 1 / 2 ^ 49) * csg_pi) = of_int (- 8842797190035548) * pow2 (4 - 52)"
    by (rule round_double_eq) (simp_all add: csg_pi_def pow2_def)
  have b: "round_double (of_int (- 8842797190035548) * pow2 (4 - 52) / 180) =
             of_int (- 6288211335136390) * pow2 (- 3 - 52)"
    by (rule round_double_eq) (simp_all add: pow2_def)
  have c: "round_double (36 * \<bar>of_int (- 6288211335136390) * pow2 (- 3 - 52)\<bar>) =
             of_int 7074237752028439 * pow2 (2 - 52)"
    by (rule round_double_eq) (simp_all add: pow2_def)
  have q: "round_double (of_int 7074237752028439 * pow2 (2 - 52) / (2 * csg_pi)) =
             of_int 9007199254740991 * pow2 (- 1 - 52)"
    by (rule round_double_eq) (simp_all add: csg_pi_def pow2_def)
  have "sweep_quotient (twist_radians (10 - 1 / 2 ^ 49)) = of_int 9007199254740991 * pow2 (- 1 - 52)"
    unfolding twist_radians_def a b sweep_quotient_def round_double_two_pi c q ..
  then show ?thesis by (simp add: pow2_def)
qed

lemma sweep_quotient_less_10:
  assumes "\<bar>t\<bar> \<le> 10 - 1 / 2 ^ 49"
  shows "sweep_quotient (twist_radians t) < 1"
proof -
  have "\<bar>t\<bar> \<le> \<bar>10 - 1 / 2 ^ 49 :: real\<bar>"
    using assms by simp
  then have "sweep_quotient (twist_radians t) \<le> sweep_quotient (twist_radians (10 - 1 / 2 ^ 49))"
    by (intro sweep_quotient_mono twist_radians_mono)
  then show ?thesis
    unfolding sweep_quotient_below_10 by simp
qed

text \<open>
  A twist of at most 28 times \<^verbatim>\<open>2^-1074\<close> degrees is rounded to zero radians: the sweep
  has the one segment of a sweep without twist.
\<close>

lemma sweep_nseg_underflow:
  assumes "\<bar>t\<bar> \<le> 28 / 2 ^ 1074"
  shows "sweep_nseg (twist_radians t) (- 1) = Inr 1"
  unfolding twist_radians_underflow [OF assms] by (simp add: sweep_nseg_def)

text \<open>
  A twist from 29 times \<^verbatim>\<open>2^-1074\<close> degrees up to the largest double below 10 degrees,
  with no slice count above zero: no segment.
\<close>

lemma sweep_nseg_zero_range:
  assumes "29 / 2 ^ 1074 \<le> \<bar>t\<bar>" and "\<bar>t\<bar> \<le> 10 - 1 / 2 ^ 49" and "s \<le> 0"
  shows "sweep_nseg (twist_radians t) s = Inr 0"
proof -
  from assms(2) have hi: "\<bar>t\<bar> < 21474836470" by simp
  have "0 \<le> sweep_quotient (twist_radians t)" by (rule sweep_quotient_nonneg)
  moreover have "sweep_quotient (twist_radians t) < 1"
    using assms(2) by (rule sweep_quotient_less_10)
  ultimately have "\<lfloor>sweep_quotient (twist_radians t)\<rfloor> = 0"
    by (simp add: floor_eq_iff)
  then show ?thesis
    unfolding sweep_nseg_twist [OF assms(1) hi] using assms(3) by simp
qed

lemma sweep_nseg_nonneg:
  assumes "sweep_nseg tw s = Inr k"
  shows "0 \<le> k"
  using assms sweep_quotient_nonneg [of tw]
  unfolding sweep_nseg_def double_to_int_def
  by (auto split: if_splits)


lemma length_sweep_cpoints: "length (sweep_cpoints k dz da dscx dscy z angle scx scy) = k"
  by (induction k arbitrary: z angle scx scy) simp_all

lemma encode_sweep_cpoints:
  assumes "encode_sweep V n = Inr x"
  shows "\<exists>k cps. sweep_nseg (sweep_twist V n) (sweep_slices V n) = Inr k \<and>
           x = Xml_node ''sweep'' [] [Xml_node ''spline_path'' [] cps] \<and> int (length cps) = k + 1"
proof -
  from assms obtain hv sc k where
    "get_value n ''height'' = Inr hv" "get_value n ''scale'' = Inr sc"
    and k: "sweep_nseg (sweep_twist V n) (sweep_slices V n) = Inr k"
    and x: "x = Xml_node ''sweep'' []
              [Xml_node ''spline_path'' []
                 (cpoint 0 0 (if (case m_par n ''center'' of Some c \<Rightarrow> v_to_string V c | None \<Rightarrow> ''false'') = ''true''
                              then - v_to_double V hv * 0.5 else 0) 0 1 0 #
                  (if k = 0 then []
                   else sweep_cpoints (nat k) (v_to_double V hv / of_int k) (sweep_twist V n / of_int k)
                          (((if v_is_vector V sc then v_to_double V (v_get V sc 0) else v_to_double V sc) - 1) / of_int k)
                          (((if v_is_vector V sc then v_to_double V (v_get V sc 1) else v_to_double V sc) - 1) / of_int k)
                          (if (case m_par n ''center'' of Some c \<Rightarrow> v_to_string V c | None \<Rightarrow> ''false'') = ''true''
                              then - v_to_double V hv * 0.5 else 0) 0 1 1))]"
    unfolding encode_sweep_def Let_def
    by (cases "get_value n ''height''"; cases "get_value n ''scale''";
        cases "sweep_nseg (sweep_twist V n) (sweep_slices V n)")
       (auto split: if_splits)
  from sweep_nseg_nonneg [OF k] have "0 \<le> k" .
  then show ?thesis
    unfolding x using k by (auto simp: length_sweep_cpoints)
qed

lemma encode_sweep_succeeds:
  "m_par n ''height'' = Some hv \<Longrightarrow> 0 < v_to_double V hv \<Longrightarrow> m_par n ''scale'' = Some sc \<Longrightarrow>
   sweep_nseg (sweep_twist V n) (sweep_slices V n) = Inr k \<Longrightarrow> \<exists>x. encode_sweep V n = Inr x"
  by (simp add: encode_sweep_def get_value_def Let_def)

text \<open>
  C2 (amended): the segment count is 1 for zero twist with a slice count of at most 1.
  For a twist of at least 10 degrees it is the integer part (not the ceiling) of the
  quotient \<^verbatim>\<open>36*fabs(tw)/(2*pi)\<close> as computed in double precision, raised to the slice
  count when that is larger; the quotient is 36 * |twist| / 360 up to the fraction
  \<^verbatim>\<open>2^-49\<close> of it. A twist of 360 degrees without slices gives 36 segments. The path
  has one control point more than it has segments.
\<close>

theorem C2_segment_count:
  "(twist_degrees V n = 0 \<and> sweep_slices V n \<le> 1 \<longrightarrow>
      sweep_nseg (sweep_twist V n) (sweep_slices V n) = Inr 1) \<and>
   (10 \<le> \<bar>twist_degrees V n\<bar> \<and> \<bar>twist_degrees V n\<bar> < 21474836470 \<longrightarrow>
      sweep_nseg (sweep_twist V n) (sweep_slices V n) =
        Inr (max \<lfloor>sweep_quotient (sweep_twist V n)\<rfloor> (sweep_slices V n)) \<and>
      36 * \<bar>twist_degrees V n\<bar> / 360 * (1 - 1 / 2 ^ 49) \<le> sweep_quotient (sweep_twist V n) \<and>
      sweep_quotient (sweep_twist V n) \<le> 36 * \<bar>twist_degrees V n\<bar> / 360 * (1 + 1 / 2 ^ 49)) \<and>
   (twist_degrees V n = 360 \<and> m_par n ''slices'' = None \<longrightarrow>
      sweep_nseg (sweep_twist V n) (sweep_slices V n) = Inr 36) \<and>
   (\<forall>x. encode_sweep V n = Inr x \<longrightarrow>
      (\<exists>nseg cps. sweep_nseg (sweep_twist V n) (sweep_slices V n) = Inr nseg \<and>
         x = Xml_node ''sweep'' [] [Xml_node ''spline_path'' [] cps] \<and>
         int (length cps) = nseg + 1))"
proof (intro conjI impI allI)
  assume "twist_degrees V n = 0 \<and> sweep_slices V n \<le> 1"
  then show "sweep_nseg (sweep_twist V n) (sweep_slices V n) = Inr 1"
    by (simp add: sweep_twist_degrees twist_radians_zero sweep_nseg_def)
next
  assume a: "10 \<le> \<bar>twist_degrees V n\<bar> \<and> \<bar>twist_degrees V n\<bar> < 21474836470"
  let ?t = "twist_degrees V n"
  have small: "(29::real) / 2 ^ 1074 \<le> 10"
    by (rule order_trans [of _ 1]) simp_all
  with a have lo: "29 / 2 ^ 1074 \<le> \<bar>?t\<bar>" by linarith
  from a have hi: "\<bar>?t\<bar> < 21474836470" by simp
  define k where "k = \<lfloor>sweep_quotient (twist_radians ?t)\<rfloor>"
  have "0 \<le> k"
    unfolding k_def using sweep_quotient_nonneg [of "twist_radians ?t"] by simp
  then have "(if sweep_slices V n > 0 \<and> sweep_slices V n > k then sweep_slices V n else k) =
      max k (sweep_slices V n)"
    by (auto simp: max_def)
  then show "sweep_nseg (sweep_twist V n) (sweep_slices V n) =
      Inr (max \<lfloor>sweep_quotient (sweep_twist V n)\<rfloor> (sweep_slices V n))"
    unfolding sweep_twist_degrees sweep_nseg_twist [OF lo hi] k_def by simp
next
  assume a: "10 \<le> \<bar>twist_degrees V n\<bar> \<and> \<bar>twist_degrees V n\<bar> < 21474836470"
  then show "36 * \<bar>twist_degrees V n\<bar> / 360 * (1 - 1 / 2 ^ 49) \<le> sweep_quotient (sweep_twist V n)"
    unfolding sweep_twist_degrees
    using sweep_quotient_from_10(1) [of "twist_degrees V n"] by simp
next
  assume a: "10 \<le> \<bar>twist_degrees V n\<bar> \<and> \<bar>twist_degrees V n\<bar> < 21474836470"
  then show "sweep_quotient (sweep_twist V n) \<le> 36 * \<bar>twist_degrees V n\<bar> / 360 * (1 + 1 / 2 ^ 49)"
    unfolding sweep_twist_degrees
    using sweep_quotient_from_10(2) [of "twist_degrees V n"] by simp
next
  assume a: "twist_degrees V n = 360 \<and> m_par n ''slices'' = None"
  have "sweep_nseg (twist_radians 360) (- 1) = Inr \<lfloor>sweep_quotient (twist_radians 360)\<rfloor>"
    by (rule sweep_nseg_no_slices) simp_all
  then have "sweep_nseg (twist_radians 360) (- 1) = Inr 36"
    unfolding sweep_quotient_360 by simp
  with a show "sweep_nseg (sweep_twist V n) (sweep_slices V n) = Inr 36"
    by (simp add: sweep_twist_degrees sweep_slices_def)
next
  fix x assume "encode_sweep V n = Inr x"
  then show "\<exists>nseg cps. sweep_nseg (sweep_twist V n) (sweep_slices V n) = Inr nseg \<and>
         x = Xml_node ''sweep'' [] [Xml_node ''spline_path'' [] cps] \<and>
         int (length cps) = nseg + 1"
    by (rule encode_sweep_cpoints)
qed

theorem C2_segment_count_witness:
  "(twist_degrees example_ops extrude_plain = 0 \<and> sweep_slices example_ops extrude_plain \<le> 1) \<and>
   sweep_nseg (sweep_twist example_ops extrude_plain) (sweep_slices example_ops extrude_plain) = Inr 1 \<and>
   (10 \<le> \<bar>twist_degrees example_ops (extrude_twist ''360'' 360)\<bar> \<and>
    \<bar>twist_degrees example_ops (extrude_twist ''360'' 360)\<bar> < 21474836470 \<and>
    twist_degrees example_ops (extrude_twist ''360'' 360) = 360 \<and>
    m_par (extrude_twist ''360'' 360) ''slices'' = None) \<and>
   sweep_nseg (sweep_twist example_ops (extrude_twist ''360'' 360))
     (sweep_slices example_ops (extrude_twist ''360'' 360)) = Inr 36 \<and>
   36 * (1 - 1 / 2 ^ 49) \<le> sweep_quotient (sweep_twist example_ops (extrude_twist ''360'' 360)) \<and>
   sweep_quotient (sweep_twist example_ops (extrude_twist ''360'' 360)) \<le> 36 * (1 + 1 / 2 ^ 49) \<and>
   (\<exists>cps. encode_sweep example_ops extrude_plain =
            Inr (Xml_node ''sweep'' [] [Xml_node ''spline_path'' [] cps]) \<and> length cps = 2)"
proof -
  have h0: "twist_degrees example_ops extrude_plain = 0 \<and> sweep_slices example_ops extrude_plain \<le> 1"
    by (simp add: twist_degrees_def sweep_slices_def extrude_plain_def example_node_def)
  have t360: "twist_degrees example_ops (extrude_twist ''360'' 360) = 360"
    by (simp add: twist_degrees_def extrude_twist_def example_node_def example_ops_def)
  have s360: "m_par (extrude_twist ''360'' 360) ''slices'' = None"
    by (simp add: extrude_twist_def example_node_def)
  note plain = C2_segment_count [of example_ops extrude_plain]
  note at360 = C2_segment_count [of example_ops "extrude_twist ''360'' 360"]
  have n0: "sweep_nseg (sweep_twist example_ops extrude_plain) (sweep_slices example_ops extrude_plain) = Inr 1"
    using plain h0 by blast
  have n360: "sweep_nseg (sweep_twist example_ops (extrude_twist ''360'' 360))
                (sweep_slices example_ops (extrude_twist ''360'' 360)) = Inr 36"
    using at360 t360 s360 by blast
  have r360: "10 \<le> \<bar>twist_degrees example_ops (extrude_twist ''360'' 360)\<bar> \<and>
      \<bar>twist_degrees example_ops (extrude_twist ''360'' 360)\<bar> < 21474836470"
    by (simp add: t360)
  have q360: "36 * \<bar>twist_degrees example_ops (extrude_twist ''360'' 360)\<bar> / 360 * (1 - 1 / 2 ^ 49)
        \<le> sweep_quotient (sweep_twist example_ops (extrude_twist ''360'' 360)) \<and>
      sweep_quotient (sweep_twist example_ops (extrude_twist ''360'' 360))
        \<le> 36 * \<bar>twist_degrees example_ops (extrude_twist ''360'' 360)\<bar> / 360 * (1 + 1 / 2 ^ 49)"
    using at360 r360 by blast
  have "m_par extrude_plain ''height'' = Some (Number 10)" "0 < v_to_double example_ops (Number 10)"
    "m_par extrude_plain ''scale'' = Some (Number 1)"
    by (simp_all add: extrude_plain_def example_node_def example_ops_def)
  from encode_sweep_succeeds [OF this n0]
  have "\<exists>x. encode_sweep example_ops extrude_plain = Inr x" .
  then obtain x where x: "encode_sweep example_ops extrude_plain = Inr x" ..
  with plain n0
  have "\<exists>cps. x = Xml_node ''sweep'' [] [Xml_node ''spline_path'' [] cps] \<and> int (length cps) = 1 + 1"
    by auto
  with x have cps: "\<exists>cps. encode_sweep example_ops extrude_plain =
            Inr (Xml_node ''sweep'' [] [Xml_node ''spline_path'' [] cps]) \<and> length cps = 2"
    by auto
  from q360 have q: "36 * (1 - 1 / 2 ^ 49) \<le> sweep_quotient (sweep_twist example_ops (extrude_twist ''360'' 360))"
      "sweep_quotient (sweep_twist example_ops (extrude_twist ''360'' 360)) \<le> 36 * (1 + 1 / 2 ^ 49)"
    unfolding t360 by simp_all
  from h0 r360 t360 s360 n0 n360 q cps show ?thesis
    by (intro conjI) simp_all
qed

theorem C2_ceiling_counterexample:
  "sweep_nseg (sweep_twist example_ops (extrude_twist ''45'' 45))
     (sweep_slices example_ops (extrude_twist ''45'' 45)) = Inr 4 \<and>
   \<lceil>36 * \<bar>twist_degrees example_ops (extrude_twist ''45'' 45)\<bar> / 360\<rceil> = 5 \<and>
   sweep_nseg (sweep_twist example_ops (extrude_twist ''250'' 250))
     (sweep_slices example_ops (extrude_twist ''250'' 250)) = Inr 24 \<and>
   \<lceil>36 * \<bar>twist_degrees example_ops (extrude_twist ''250'' 250)\<bar> / 360\<rceil> = 25"
proof -
  have t: "twist_degrees example_ops (extrude_twist ''45'' 45) = 45"
    by (simp add: twist_degrees_def extrude_twist_def example_node_def example_ops_def)
  have s: "sweep_slices example_ops (extrude_twist ''45'' 45) = - 1"
    by (simp add: sweep_slices_def extrude_twist_def example_node_def)
  have "\<lfloor>sweep_quotient (twist_radians 45)\<rfloor> = 4"
    using sweep_quotient_from_10 [of 45] by (simp add: floor_eq_iff)
  moreover have "sweep_nseg (twist_radians 45) (- 1) = Inr \<lfloor>sweep_quotient (twist_radians 45)\<rfloor>"
    by (rule sweep_nseg_no_slices) simp_all
  ultimately have n45: "sweep_nseg (twist_radians 45) (- 1) = Inr 4"
    by simp
  have t': "twist_degrees example_ops (extrude_twist ''250'' 250) = 250"
    by (simp add: twist_degrees_def extrude_twist_def example_node_def example_ops_def)
  have s': "sweep_slices example_ops (extrude_twist ''250'' 250) = - 1"
    by (simp add: sweep_slices_def extrude_twist_def example_node_def)
  have fl: "\<lfloor>(25::real) - 1 / 2 ^ 48\<rfloor> = 24"
    by (simp add: floor_eq_iff)
  have "sweep_nseg (twist_radians 250) (- 1) = Inr \<lfloor>sweep_quotient (twist_radians 250)\<rfloor>"
    by (rule sweep_nseg_no_slices) simp_all
  then have n250: "sweep_nseg (twist_radians 250) (- 1) = Inr 24"
    unfolding sweep_quotient_250 fl .
  from n45 n250 show ?thesis
    unfolding sweep_twist_degrees t s t' s' by simp
qed

text \<open>
  C10: for a twist that is a double of less than 10 degrees and of at least 29 times
  \<^verbatim>\<open>2^-1074\<close> degrees, with no slice count above zero, the segment count is 0: the
  encoder divides by zero. (The 28 doubles between zero and that bound are rounded to
  zero radians, and take the branch of a sweep without twist.)
\<close>

theorem C10_sweep_nseg_zero:
  "round_double (twist_degrees V n) = twist_degrees V n \<Longrightarrow>
   29 / 2 ^ 1074 \<le> \<bar>twist_degrees V n\<bar> \<Longrightarrow> \<bar>twist_degrees V n\<bar> < 10 \<Longrightarrow>
   sweep_slices V n \<le> 0 \<Longrightarrow>
   sweep_nseg (sweep_twist V n) (sweep_slices V n) = Inr 0"
proof -
  assume a: "round_double (twist_degrees V n) = twist_degrees V n"
    "29 / 2 ^ 1074 \<le> \<bar>twist_degrees V n\<bar>" "\<bar>twist_degrees V n\<bar> < 10" "sweep_slices V n \<le> 0"
  from a(1,3) have "\<bar>twist_degrees V n\<bar> \<le> 10 - 1 / 2 ^ 49"
    by (rule double_below_10)
  with a(2) show ?thesis
    unfolding sweep_twist_degrees using a(4) by (rule sweep_nseg_zero_range)
qed

theorem C10_sweep_nseg_zero_witness:
  "round_double (twist_degrees example_ops (extrude_twist ''5'' 5)) =
     twist_degrees example_ops (extrude_twist ''5'' 5) \<and>
   29 / 2 ^ 1074 \<le> \<bar>twist_degrees example_ops (extrude_twist ''5'' 5)\<bar> \<and>
   \<bar>twist_degrees example_ops (extrude_twist ''5'' 5)\<bar> < 10 \<and>
   m_par (extrude_twist ''5'' 5) ''slices'' = None \<and>
   sweep_slices example_ops (extrude_twist ''5'' 5) \<le> 0 \<and>
   sweep_nseg (sweep_twist example_ops (extrude_twist ''5'' 5))
     (sweep_slices example_ops (extrude_twist ''5'' 5)) = Inr 0"
proof -
  have t: "twist_degrees example_ops (extrude_twist ''5'' 5) = 5"
    by (simp add: twist_degrees_def extrude_twist_def example_node_def example_ops_def)
  have s: "sweep_slices example_ops (extrude_twist ''5'' 5) = - 1"
    by (simp add: sweep_slices_def extrude_twist_def example_node_def)
  have p: "m_par (extrude_twist ''5'' 5) ''slices'' = None"
    by (simp add: extrude_twist_def example_node_def)
  have d: "round_double (twist_degrees example_ops (extrude_twist ''5'' 5)) =
      twist_degrees example_ops (extrude_twist ''5'' 5)"
    unfolding t by (rule round_double_5)
  have lo: "(29::real) / 2 ^ 1074 \<le> \<bar>twist_degrees example_ops (extrude_twist ''5'' 5)\<bar>"
    unfolding t by (rule order_trans [of _ 1]) simp_all
  have hi: "\<bar>twist_degrees example_ops (extrude_twist ''5'' 5)\<bar> < 10"
    unfolding t by simp
  have sl: "sweep_slices example_ops (extrude_twist ''5'' 5) \<le> 0"
    unfolding s by simp
  from C10_sweep_nseg_zero [of example_ops "extrude_twist ''5'' 5", OF d lo hi sl] d lo hi sl p
  show ?thesis by (intro conjI)
qed

subsection \<open>Rotate extrude\<close>

lemma rotx_rotation: "rotx = rotation_x (- (pi / 2))"
  by (intro ext) (simp add: rotx_def rotation_x_def csg_matrix_set_def csg_matrix_default_def)

lemma csg_matrix_mult_product: "csg_matrix_mult a b = matrix_product a b"
  by (intro ext) (simp add: csg_matrix_mult_def matrix_product_def lessThan_def [symmetric]
        numeral_eq_Suc lessThan_Suc)

text \<open>
  C9: the rotate extrude encoder, whenever it runs to its end, leaves the node with a
  transform: the product R M of the rotation R by -90 degrees about X with the
  transform M the node had, R on the left, or R alone when the node had none. It runs
  to its end when the parameter \<open>angle\<close> is present.
\<close>

theorem C9_rotate_extrude_transform:
  "(\<forall>n' x. encode_rotate_extrude V n = Inr (n', x) \<longrightarrow>
      m_has_matrix n' \<and>
      m_matrix n' = (if m_has_matrix n then matrix_product (rotation_x (- (pi / 2))) (m_matrix n)
                     else rotation_x (- (pi / 2)))) \<and>
   (m_par n ''angle'' \<noteq> None \<longrightarrow> (\<exists>n' x. encode_rotate_extrude V n = Inr (n', x)))"
  by (auto simp: encode_rotate_extrude_def rotx_rotation csg_matrix_mult_product split: option.splits)

theorem C9_rotate_extrude_transform_witness:
  "m_par rotate_plain ''angle'' \<noteq> None \<and> \<not> m_has_matrix rotate_plain \<and>
   (\<exists>n' x. encode_rotate_extrude example_ops rotate_plain = Inr (n', x) \<and> m_has_matrix n' \<and>
      map (\<lambda>i. map (m_matrix n' i) [0, 1, 2, 3]) [0, 1, 2, 3] =
        [[1, 0, 0, 0], [0, 0, 1, 0], [0, - 1, 0, 0], [0, 0, 0, 1]]) \<and>
   m_par rotate_with_matrix ''angle'' \<noteq> None \<and> m_has_matrix rotate_with_matrix \<and>
   (\<exists>n' x. encode_rotate_extrude example_ops rotate_with_matrix = Inr (n', x) \<and> m_has_matrix n' \<and>
      map (\<lambda>i. map (m_matrix n' i) [0, 1, 2, 3]) [0, 1, 2, 3] =
        [[0, 1, 2, 3], [8, 9, 10, 11], [- 4, - 5, - 6, - 7], [12, 13, 14, 15]])"
proof -
  have a1: "m_par rotate_plain ''angle'' \<noteq> None" and h1: "\<not> m_has_matrix rotate_plain"
    by (simp_all add: rotate_plain_def example_node_def)
  have a2: "m_par rotate_with_matrix ''angle'' \<noteq> None" and h2: "m_has_matrix rotate_with_matrix"
    and m2: "m_matrix rotate_with_matrix = (\<lambda>i j. real (4 * i + j))"
    by (simp_all add: rotate_with_matrix_def)
  from C9_rotate_extrude_transform [of example_ops rotate_plain] a1 h1
  obtain n1 x1 where r1: "encode_rotate_extrude example_ops rotate_plain = Inr (n1, x1)"
    "m_has_matrix n1" "m_matrix n1 = rotation_x (- (pi / 2))"
    by auto
  from C9_rotate_extrude_transform [of example_ops rotate_with_matrix] a2 h2
  obtain n2 x2 where r2: "encode_rotate_extrude example_ops rotate_with_matrix = Inr (n2, x2)"
    "m_has_matrix n2"
    "m_matrix n2 = matrix_product (rotation_x (- (pi / 2))) (m_matrix rotate_with_matrix)"
    by auto
  have e1: "map (\<lambda>i. map (m_matrix n1 i) [0, 1, 2, 3]) [0, 1, 2, 3] =
        [[1, 0, 0, 0], [0, 0, 1, 0], [0, - 1, 0, 0], [0, 0, 0, 1]]"
    by (simp add: r1(3) rotation_x_def)
  have e2: "map (\<lambda>i. map (m_matrix n2 i) [0, 1, 2, 3]) [0, 1, 2, 3] =
        [[0, 1, 2, 3], [8, 9, 10, 11], [- 4, - 5, - 6, - 7], [12, 13, 14, 15]]"
    by (simp add: r2(3) m2 csg_matrix_mult_product [symmetric] csg_matrix_mult_def rotation_x_def)
  show ?thesis
    by (intro conjI exI [of _ n1] exI [of _ x1] exI [of _ n2] exI [of _ x2]
          a1 h1 a2 h2 r1(1) r1(2) r2(1) r2(2) e1 e2)
qed

subsection \<open>Missing parameters\<close>

lemma get_value_missing:
  "m_par n name = None \<Longrightarrow>
   get_value n name = Inl (Runtime_error (''csg_node::get_value(), .csg file line '' @ to_string (m_line_no n) @
      '' parameter '' @ [CHR 0x27] @ name @ [CHR 0x27] @ '' not found for '' @ tag n))"
  by (simp add: get_value_def line_no_def)

lemma get_scalar_missing:
  "m_par n name = None \<Longrightarrow>
   get_scalar V n name = Inl (Runtime_error (''csg_node::get_scalar(), .csg file line '' @ to_string (m_line_no n) @
      '' parameter '' @ [CHR 0x27] @ name @ [CHR 0x27] @ '' not found for '' @ tag n))"
  by (simp add: get_scalar_def line_no_def)

text \<open>
  C4: the encoders of \<open>offset2d\<close> and \<open>rotate_extrude\<close> do not fetch their parameters
  through \<^verbatim>\<open>get_value\<close>. For an offset without \<open>r\<close> and \<open>delta\<close>, and for a rotate
  extrude without \<open>angle\<close>, the conversion reads through an end iterator; no error
  that names the parameter and the tag is raised.
\<close>

theorem C4_missing_parameter_not_reported:
  "m_par offset_bare ''r'' = None \<and> m_par offset_bare ''delta'' = None \<and>
   to_xcsg example_ops True offset_bare =
     Inl (Undefined_behaviour ''offset2d: end iterator of delta dereferenced'') \<and>
   m_par rotate_bare ''angle'' = None \<and>
   to_xcsg example_ops True rotate_bare =
     Inl (Undefined_behaviour ''rotate_extrude: end iterator of angle dereferenced'')"
  by (simp add: offset_bare_def rotate_bare_def example_node_def tag_def find_first_of_def
        to_xcsg_this_def generator_dimension_def not_supported_def pass_through_def m_xmap_def
        fix_tag_def single_child_fix_def encode_def encode_offset2d_def encode_rotate_extrude_def)

subsection \<open>Dimension and tags\<close>

lemma generator_dimension_range:
  "generator_dimension t = 0 \<or> generator_dimension t = 2 \<or> generator_dimension t = 3"
  by (simp add: generator_dimension_def)

lemma dimension_unfold:
  "dimension n =
     (if generator_dimension (tag n) > 0 then Inr (generator_dimension (tag n))
      else case not_supported (tag n) (m_line_no n) (m_func n) of
        Some e \<Rightarrow> Inl e
      | None \<Rightarrow> dimension_children (m_children n))"
  by (cases n; cases "m_children n") (auto split: option.splits)

lemma dimension_range:
  "dimension (n :: 'v csg_node) = Inr d \<Longrightarrow> d = 0 \<or> d = 2 \<or> d = 3"
  and dimension_children_range:
  "dimension_children (cs :: 'v csg_node list) = Inr d \<Longrightarrow> d = 0 \<or> d = 2 \<or> d = 3"
proof (induction n and cs arbitrary: d and d rule: dimension_dimension_children.induct)
  case (1 lv lno f ps cs hm mx)
  then show ?case
    using generator_dimension_range [of "tag (Csg_node lv lno f ps cs hm mx)"]
    by (auto split: if_splits option.splits)
next
  case 2
  then show ?case by simp
next
  case (3 c cs)
  then show ?case
    using generator_dimension_range [of "tag c"]
    by (auto split: if_splits option.splits sum.splits)
qed

lemma find_star_None: "find_first_of t ''*'' 0 = None \<longleftrightarrow> CHR ''*'' \<notin> set t"
  by (simp add: find_first_of_0_None)

lemma fix_tag_no_star: "CHR ''*'' \<notin> set t \<Longrightarrow> fix_tag n t = Inr t"
  using find_star_None [of t] by (simp add: fix_tag_def)

lemma fix_tag_star:
  "dimension n = Inr d \<Longrightarrow>
   fix_tag n (s @ ''*'') = Inr (if d = 2 then s @ ''2d'' else if d = 3 then s @ ''3d'' else s @ ''*'')"
proof -
  assume d: "dimension n = Inr d"
  have "find_first_of (s @ ''*'') ''*'' 0 \<noteq> None"
    by (simp add: find_star_None)
  then obtain i where "find_first_of (s @ ''*'') ''*'' 0 = Some i" by auto
  with d show ?thesis by (simp add: fix_tag_def)
qed

lemma to_xcsg_skipped:
  assumes "dimension n = Inr 0" and "m_level n \<noteq> - 1"
  shows "to_xcsg V parent_ok n = Inr (n, [])"
proof -
  from assms(1) have "to_xcsg_this V parent_ok n = Inr Skipped"
    by (simp add: to_xcsg_this_def)
  with assms(2) show ?thesis by (cases n) simp
qed

lemma xmap_resolved:
  assumes "dimension n = Inr d" and "d \<noteq> 0" and "m_xmap k = Some u"
  shows "\<exists>w. fix_tag n u = Inr w \<and> CHR ''*'' \<notin> set w"
proof -
  from assms(1,2) have d: "d = 2 \<or> d = 3" using dimension_range by blast
  from assms(3) have "CHR ''*'' \<notin> set u \<or> (\<exists>s. u = s @ ''*'' \<and> CHR ''*'' \<notin> set s)"
    by (auto simp: m_xmap_def split: if_splits)
  then show ?thesis
  proof
    assume "CHR ''*'' \<notin> set u"
    then show ?thesis by (simp add: fix_tag_no_star)
  next
    assume "\<exists>s. u = s @ ''*'' \<and> CHR ''*'' \<notin> set s"
    then obtain s where "u = s @ ''*''" "CHR ''*'' \<notin> set s" by blast
    with d assms(1) show ?thesis by (auto simp: fix_tag_star)
  qed
qed

lemma xmap_no_trailing_star:
  assumes "m_xmap k = Some u" and "u = [] \<or> last u \<noteq> CHR ''*''"
  shows "CHR ''*'' \<notin> set u"
  using assms by (auto simp: m_xmap_def split: if_splits)


lemmas example_eval =
  example_node_def example_ops_def tag_def find_first_of_def to_xcsg_this_def
  generator_dimension_def not_supported_def pass_through_def m_xmap_def fix_tag_def
  single_child_fix_def size_children_def encode_def encode_boolean_def
  get_value_def get_scalar_def line_no_def add_children_def finish_def with_children_def

lemma dimension_circle_unit: "dimension circle_unit = Inr 2"
  by (simp add: circle_unit_def example_eval)

lemma dimension_cube_234: "dimension cube_234 = Inr 3"
  by (simp add: cube_234_def example_eval)

lemma dimension_union_empty: "dimension union_empty = Inr 0"
  by (simp add: union_empty_def example_eval)

text \<open>
  C8 (amended): \<^verbatim>\<open>fix_tag\<close> returns unchanged every tag without a star, among them
  every template of the table that does not end in a star; for a template that ends
  in a star it replaces the star by \<open>2d\<close> or \<open>3d\<close> when the dimension is 2 or 3 and
  returns the template unchanged when the dimension is 0. A node below the root whose
  dimension is 0 is passed over by \<^verbatim>\<open>to_xcsg\<close> without output and without error;
  where the dimension is not 0 every template of the table is resolved.
\<close>

theorem C8_fix_tag:
  "(CHR ''*'' \<notin> set t \<longrightarrow> fix_tag n t = Inr t) \<and>
   (\<forall>k u. m_xmap k = Some u \<and> (u = [] \<or> last u \<noteq> CHR ''*'') \<longrightarrow> fix_tag n u = Inr u) \<and>
   (dimension n = Inr 2 \<longrightarrow> fix_tag n (s @ ''*'') = Inr (s @ ''2d'')) \<and>
   (dimension n = Inr 3 \<longrightarrow> fix_tag n (s @ ''*'') = Inr (s @ ''3d'')) \<and>
   (dimension n = Inr 0 \<longrightarrow> fix_tag n (s @ ''*'') = Inr (s @ ''*'')) \<and>
   (dimension n = Inr 0 \<and> m_level n \<noteq> - 1 \<longrightarrow> to_xcsg V parent_ok n = Inr (n, [])) \<and>
   (\<forall>d k u. dimension n = Inr d \<and> d \<noteq> 0 \<and> m_xmap k = Some u \<longrightarrow>
      (\<exists>w. fix_tag n u = Inr w \<and> CHR ''*'' \<notin> set w))"
proof (intro conjI impI allI)
  assume "CHR ''*'' \<notin> set t"
  then show "fix_tag n t = Inr t" by (rule fix_tag_no_star)
next
  fix k u assume "m_xmap k = Some u \<and> (u = [] \<or> last u \<noteq> CHR ''*'')"
  then have "CHR ''*'' \<notin> set u" using xmap_no_trailing_star by blast
  then show "fix_tag n u = Inr u" by (rule fix_tag_no_star)
next
  assume "dimension n = Inr 2"
  then show "fix_tag n (s @ ''*'') = Inr (s @ ''2d'')" by (simp add: fix_tag_star)
next
  assume "dimension n = Inr 3"
  then show "fix_tag n (s @ ''*'') = Inr (s @ ''3d'')" by (simp add: fix_tag_star)
next
  assume "dimension n = Inr 0"
  then show "fix_tag n (s @ ''*'') = Inr (s @ ''*'')" by (simp add: fix_tag_star)
next
  assume "dimension n = Inr 0 \<and> m_level n \<noteq> - 1"
  then show "to_xcsg V parent_ok n = Inr (n, [])" by (simp add: to_xcsg_skipped)
next
  fix d k u assume "dimension n = Inr d \<and> d \<noteq> 0 \<and> m_xmap k = Some u"
  then show "\<exists>w. fix_tag n u = Inr w \<and> CHR ''*'' \<notin> set w"
    using xmap_resolved by blast
qed

theorem C8_fix_tag_witness:
  "CHR ''*'' \<notin> set ''cuboid'' \<and> fix_tag circle_unit ''cuboid'' = Inr ''cuboid'' \<and>
   dimension circle_unit = Inr 2 \<and> fix_tag circle_unit ''union*'' = Inr ''union2d'' \<and>
   dimension cube_234 = Inr 3 \<and> fix_tag cube_234 ''union*'' = Inr ''union3d'' \<and>
   dimension union_empty = Inr 0 \<and> m_level union_empty \<noteq> - 1 \<and>
   fix_tag union_empty ''union*'' = Inr ''union*'' \<and>
   to_xcsg example_ops True union_empty = Inr (union_empty, []) \<and>
   m_xmap ''difference'' = Some ''difference*'' \<and>
   (\<exists>w. fix_tag cube_234 ''difference*'' = Inr w \<and> CHR ''*'' \<notin> set w)"
proof -
  have lv: "m_level union_empty \<noteq> - 1"
    by (simp add: union_empty_def example_node_def)
  have xm: "m_xmap ''difference'' = Some ''difference*''"
    by (simp add: m_xmap_def)
  have ns: "CHR ''*'' \<notin> set ''cuboid''" by simp
  have three: "(3::nat) \<noteq> 0" by simp
  from C8_fix_tag [of "''cuboid''" circle_unit "''union''" example_ops True]
       C8_fix_tag [of "''cuboid''" cube_234 "''union''" example_ops True]
       C8_fix_tag [of "''cuboid''" union_empty "''union''" example_ops True]
       dimension_circle_unit dimension_cube_234 dimension_union_empty lv xm ns three
  show ?thesis by simp
qed

theorem C8_unresolved_counterexample:
  "dimension union_empty = Inr 0 \<and> m_xmap (tag union_empty) = Some ''union*'' \<and>
   to_xcsg example_ops True union_empty = Inr (union_empty, []) \<and>
   to_xcsg example_ops True root_empty = Inr (root_empty, [Xml_node ''union*'' [] []]) \<and>
   fix_tag circle_unit ''a*b'' = Inr ''a*2d''"
  by (simp add: union_empty_def root_empty_def circle_unit_def example_eval)

subsection \<open>Boolean operators\<close>

lemma fold_count_dummy:
  "fold (\<lambda>c nc. if \<not> is_dummy c then nc + 1 else nc) cs k =
     k + length (filter (\<lambda>c. \<not> is_dummy c) cs)"
  by (induction cs arbitrary: k) simp_all

lemma size_children_filter:
  "size_children n = length (filter (\<lambda>c. \<not> is_dummy c) (m_children n))"
  by (simp add: size_children_def fold_count_dummy)

lemma dimension_children_all_dummy:
  "filter (\<lambda>c. \<not> is_dummy c) cs = [] \<Longrightarrow> dimension_children cs = Inr 0"
  by (induction cs) (simp_all split: if_splits)

lemma mixed_dimension_check_all_dummy:
  "filter (\<lambda>c. \<not> is_dummy c) cs = [] \<Longrightarrow> mixed_dimension_check cs dims mixed = Inr ()"
  by (induction cs) (simp_all split: if_splits)

text \<open>
  For a child that is not dummy, a positive entry of the parent's chain is the
  dimension of the child itself.
\<close>

lemma dimension_children_first:
  assumes "\<not> is_dummy c" and "filter (\<lambda>c. \<not> is_dummy c) cs = []"
    and "dimension_children (c # cs) = Inr d" and "d > 0"
  shows "dimension c = Inr d"
proof -
  from assms(2) have rest: "dimension_children cs = Inr 0"
    by (rule dimension_children_all_dummy)
  show ?thesis
  proof (cases "generator_dimension (tag c) > 0")
    case True
    with assms(1,3) show ?thesis by (simp add: dimension_unfold [of c])
  next
    case False
    show ?thesis
    proof (cases "pass_through (tag c)")
      case True
      with False assms(1,3,4) rest show ?thesis
        by (cases "dimension c") (auto split: if_splits)
    next
      case no: False
      with False assms(1,3,4) rest show ?thesis
        by (auto split: option.splits if_splits)
    qed
  qed
qed

lemma one_child_check:
  "length (filter (\<lambda>c. \<not> is_dummy c) cs) \<le> 1 \<Longrightarrow> dimension_children cs = Inr d \<Longrightarrow> d > 0 \<Longrightarrow>
   mixed_dimension_check cs [] mixed = Inr ()"
proof (induction cs)
  case Nil
  then show ?case by simp
next
  case (Cons c cs)
  show ?case
  proof (cases "is_dummy c")
    case True
    with Cons show ?thesis by simp
  next
    case False
    with Cons.prems(1) have rest: "filter (\<lambda>c. \<not> is_dummy c) cs = []" by simp
    from dimension_children_first [OF False rest Cons.prems(2,3)]
    have "dimension c = Inr d" .
    with False Cons.prems(3) show ?thesis
      by (simp add: mixed_dimension_check_all_dummy [OF rest])
  qed
qed

lemma and_then_assoc: "and_then (and_then m f) g = and_then m (\<lambda>x. and_then (f x) g)"
  by (cases m) simp_all

lemma encode_boolean_prefix:
  assumes "boolean_prefix xt"
  shows "encode V n ot xt = and_then (encode_boolean n ot xt) (\<lambda>x. Inr (n, None, x))"
proof -
  have "xt \<noteq> ''circle''" "xt \<noteq> ''rectangle''" "xt \<noteq> ''polygon''" "xt \<noteq> ''offset2d''"
    "xt \<noteq> ''cone''" "xt \<noteq> ''sphere''" "xt \<noteq> ''cuboid''" "xt \<noteq> ''linear_extrude''"
    "xt \<noteq> ''sweep''" "xt \<noteq> ''rotate_extrude''" "xt \<noteq> ''polyhedron''" "xt \<noteq> ''projection2d''"
    using assms unfolding boolean_prefix_def by auto
  moreover from assms have "take 4 xt = ''diff'' \<or> take 4 xt = ''inte'' \<or> take 4 xt = ''mink'' \<or>
      take 4 xt = ''unio'' \<or> take 4 xt = ''hull''"
    unfolding boolean_prefix_def .
  ultimately show ?thesis
    unfolding encode_def by (simp only: if_False if_True)
qed

lemma single_child_fix_prefix: "boolean_prefix xt \<Longrightarrow> boolean_prefix (single_child_fix n xt)"
  by (simp add: single_child_fix_def boolean_prefix_def)

text \<open>The tags of the boolean family and the output tag of each by dimension.\<close>

lemma to_xcsg_this_boolean:
  assumes "tag n = ''difference'' \<or> tag n = ''intersection'' \<or> tag n = ''minkowski'' \<or>
           tag n = ''union'' \<or> tag n = ''hull''"
    and "dimension n = Inr d" and "d \<noteq> 0"
  shows "to_xcsg_this V True n =
           and_then (encode_boolean n (tag n)
                       (single_child_fix n (tag n @ (if d = 2 then ''2d'' else ''3d''))))
             (\<lambda>x. Inr (Emitted n None
                          (if m_has_matrix n then add_children x [to_xcsg_matrix (m_matrix n)]
                           else x)))"
proof -
  let ?xt = "tag n @ (if d = 2 then ''2d'' else ''3d'')"
  from assms(2,3) have d: "d = 2 \<or> d = 3" using dimension_range by blast
  have xm: "m_xmap (tag n) = Some (tag n @ ''*'')"
    using assms(1) by (auto simp: m_xmap_def)
  have ns: "CHR ''*'' \<notin> set (tag n)"
    using assms(1) by auto
  have ft: "fix_tag n (tag n @ ''*'') = Inr ?xt"
    using d by (auto simp: fix_tag_star [OF assms(2)])
  have star: "find_first_of ?xt ''*'' 0 = None"
    using ns by (simp add: find_star_None)
  have mm: "tag n \<noteq> ''multmatrix''" using assms(1) by auto
  have "boolean_prefix ?xt"
    using assms(1) by (auto simp: boolean_prefix_def)
  then have enc: "encode V n (tag n) (single_child_fix n ?xt) =
        and_then (encode_boolean n (tag n) (single_child_fix n ?xt)) (\<lambda>x. Inr (n, None, x))"
    by (intro encode_boolean_prefix single_child_fix_prefix)
  have "to_xcsg_this V True n =
          and_then (encode V n (tag n) (single_child_fix n ?xt))
            (\<lambda>(n2, outer, x). Inr (Emitted n2 outer
               (if m_has_matrix n2 then add_children x [to_xcsg_matrix (m_matrix n2)] else x)))"
    unfolding to_xcsg_this_def
    by (simp only: assms(2) and_then.simps assms(3) if_False mm xm option.case ft star
          simp_thms if_True)
  then show ?thesis
    unfolding enc and_then_assoc by simp
qed


lemma boolean_dimension_children:
  assumes "tag n = ''difference'' \<or> tag n = ''intersection'' \<or> tag n = ''minkowski'' \<or>
           tag n = ''union'' \<or> tag n = ''hull''"
  shows "dimension n = dimension_children (m_children n)"
  using assms by (auto simp: dimension_unfold [of n] generator_dimension_def not_supported_def)

text \<open>
  A difference or intersection node below the root with exactly one child that is not
  a \<^verbatim>\<open>group\<close> without children, and with dimension 3 (or 2), is written as \<open>union3d\<close>
  (or \<open>union2d\<close>); the node itself raises no error, and the conversion of the node is
  the conversion of its children under that tag.
\<close>

lemma single_child_union:
  assumes "tag n = ''difference'' \<or> tag n = ''intersection''"
    and "m_level n \<noteq> - 1"
    and "length (filter (\<lambda>c. \<not> (tag c = ''group'' \<and> m_children c = [])) (m_children n)) = 1"
    and "dimension n = Inr d" and "d = 2 \<or> d = 3"
  shows "to_xcsg_this V True n =
           Inr (Emitted n None
                  (Xml_node (if d = 3 then ''union3d'' else ''union2d'') []
                     (if m_has_matrix n then [to_xcsg_matrix (m_matrix n)] else []))) \<and>
         to_xcsg V True n =
           and_then (to_xcsg_children V True (m_children n))
             (\<lambda>(cs', xs). Inr (with_children n cs',
                [Xml_node (if d = 3 then ''union3d'' else ''union2d'') []
                   ((if m_has_matrix n then [to_xcsg_matrix (m_matrix n)] else []) @ xs)]))"
proof -
  let ?u = "if d = 3 then ''union3d'' else ''union2d''"
  let ?mixed = "mixed_dimension n (tag n) ?u"
  from assms(1) have fam: "tag n = ''difference'' \<or> tag n = ''intersection'' \<or>
      tag n = ''minkowski'' \<or> tag n = ''union'' \<or> tag n = ''hull''" by blast
  from assms(5) have d0: "d \<noteq> 0" by auto
  from assms(3) have sc: "size_children n = 1"
    by (simp add: size_children_filter is_dummy_iff)
  have scf: "single_child_fix n (tag n @ (if d = 2 then ''2d'' else ''3d'')) = ?u"
    using assms(1,5) sc by (auto simp: single_child_fix_def)
  have "dimension_children (m_children n) = Inr d"
    using boolean_dimension_children [OF fam] assms(4) by simp
  moreover have "length (filter (\<lambda>c. \<not> is_dummy c) (m_children n)) \<le> 1"
    using sc by (simp add: size_children_filter)
  ultimately have "mixed_dimension_check (m_children n) [] ?mixed = Inr ()"
    using d0 by (intro one_child_check) auto
  then have "encode_boolean n (tag n) ?u = Inr (Xml_node ?u [] [])"
    using assms(5) by (auto simp: encode_boolean_def)
  then have own: "to_xcsg_this V True n =
           Inr (Emitted n None
                  (Xml_node ?u [] (if m_has_matrix n then [to_xcsg_matrix (m_matrix n)] else [])))"
    unfolding to_xcsg_this_boolean [OF fam assms(4) d0] scf
    by (simp add: add_children_def)
  have "to_xcsg V True n =
           and_then (to_xcsg_children V True (m_children n))
             (\<lambda>(cs', xs). Inr (with_children n cs',
                [Xml_node ?u [] ((if m_has_matrix n then [to_xcsg_matrix (m_matrix n)] else []) @ xs)]))"
    using assms(2) own
    by (cases n) (simp add: finish_def add_children_def cong: if_cong)
  with own show ?thesis by blast
qed

text \<open>
  C6: the difference of a cube alone, and that of an empty group and a cube, are
  written as \<open>union3d\<close>, the intersection of a circle alone as \<open>union2d\<close>. The
  difference of a group that holds one empty group, and a cube, has one child that is
  not dummy, the group being dummy by the specification; \<^verbatim>\<open>size_children\<close> counts 2,
  the group of dummies not being dummy for \<^verbatim>\<open>is_dummy\<close>, and the node is written as
  \<open>difference3d\<close> with the cube as its one operand.
\<close>

theorem C6_nested_group_difference:
  "spec_size_children difference_one = 1 \<and> size_children difference_one = 1 \<and>
   map_sum id snd (to_xcsg example_ops True difference_one) =
     Inr [Xml_node ''union3d'' []
            [Xml_node ''cuboid''
               [(''dx'', Xml_number 2), (''dy'', Xml_number 3), (''dz'', Xml_number 4),
                (''center'', Xml_string ''true'')] []]] \<and>
   spec_size_children difference_padded = 1 \<and> size_children difference_padded = 1 \<and>
   map_sum id snd (to_xcsg example_ops True difference_padded) =
     Inr [Xml_node ''union3d'' []
            [Xml_node ''cuboid''
               [(''dx'', Xml_number 2), (''dy'', Xml_number 3), (''dz'', Xml_number 4),
                (''center'', Xml_string ''true'')] []]] \<and>
   spec_size_children intersection_one = 1 \<and> size_children intersection_one = 1 \<and>
   map_sum id snd (to_xcsg example_ops True intersection_one) =
     Inr [Xml_node ''union2d'' [] [Xml_node ''circle'' [(''r'', Xml_number 1)] []]] \<and>
   spec_size_children difference_nested = 1 \<and> size_children difference_nested = 2 \<and>
   dimension difference_nested = Inr 3 \<and>
   map_sum id snd (to_xcsg example_ops True difference_nested) =
     Inr [Xml_node ''difference3d'' []
            [Xml_node ''cuboid''
               [(''dx'', Xml_number 2), (''dy'', Xml_number 3), (''dz'', Xml_number 4),
                (''center'', Xml_string ''true'')] []]]"
  by (simp add: difference_one_def difference_padded_def intersection_one_def
        difference_nested_def cube_234_def circle_unit_def spec_size_children_def
        example_eval encode_cuboid_def encode_radius_def)

text \<open>
  C5 (amended): a difference, intersection or minkowski node below the root without a
  counted child is passed over without output and without error. A minkowski node
  below the root with fewer than two children in all and a dimension that is not 0
  fails with the error that names the operator and the output tag.
\<close>

theorem C5_fewer_than_two_children:
  "((tag n = ''difference'' \<or> tag n = ''intersection'' \<or> tag n = ''minkowski'') \<and>
    m_level n \<noteq> - 1 \<and> size_children n = 0 \<longrightarrow>
      to_xcsg V parent_ok n = Inr (n, [])) \<and>
   (tag n = ''minkowski'' \<and> m_level n \<noteq> - 1 \<and> length (m_children n) < 2 \<and>
    dimension n = Inr d \<and> d \<noteq> 0 \<longrightarrow>
      to_xcsg V True n =
        Inl (fewer_than_2 n ''minkowski'' (''minkowski'' @ (if d = 2 then ''2d'' else ''3d''))))"
proof (intro conjI impI)
  assume a: "(tag n = ''difference'' \<or> tag n = ''intersection'' \<or> tag n = ''minkowski'') \<and>
    m_level n \<noteq> - 1 \<and> size_children n = 0"
  then have fam: "tag n = ''difference'' \<or> tag n = ''intersection'' \<or>
      tag n = ''minkowski'' \<or> tag n = ''union'' \<or> tag n = ''hull''" by blast
  from a have "filter (\<lambda>c. \<not> is_dummy c) (m_children n) = []"
    by (simp add: size_children_filter)
  then have "dimension n = Inr 0"
    unfolding boolean_dimension_children [OF fam] by (rule dimension_children_all_dummy)
  with a show "to_xcsg V parent_ok n = Inr (n, [])"
    by (simp add: to_xcsg_skipped)
next
  assume a: "tag n = ''minkowski'' \<and> m_level n \<noteq> - 1 \<and> length (m_children n) < 2 \<and>
    dimension n = Inr d \<and> d \<noteq> 0"
  then have fam: "tag n = ''difference'' \<or> tag n = ''intersection'' \<or>
      tag n = ''minkowski'' \<or> tag n = ''union'' \<or> tag n = ''hull''" by blast
  from a have d: "dimension n = Inr d" "d \<noteq> 0" by auto
  then have d23: "d = 2 \<or> d = 3" using dimension_range by blast
  from a have t: "tag n = ''minkowski''" by simp
  have scf: "single_child_fix n (tag n @ (if d = 2 then ''2d'' else ''3d'')) =
      ''minkowski'' @ (if d = 2 then ''2d'' else ''3d'')"
    by (simp add: single_child_fix_def t)
  have "encode_boolean n (tag n) (''minkowski'' @ (if d = 2 then ''2d'' else ''3d'')) =
      Inl (fewer_than_2 n ''minkowski'' (''minkowski'' @ (if d = 2 then ''2d'' else ''3d'')))"
    using a by (simp add: encode_boolean_def)
  then have "to_xcsg_this V True n =
      Inl (fewer_than_2 n ''minkowski'' (''minkowski'' @ (if d = 2 then ''2d'' else ''3d'')))"
    unfolding to_xcsg_this_boolean [OF fam d] scf by simp
  with a show "to_xcsg V True n =
      Inl (fewer_than_2 n ''minkowski'' (''minkowski'' @ (if d = 2 then ''2d'' else ''3d'')))"
    by (cases n) simp
qed

theorem C5_fewer_than_two_children_witness:
  "(tag difference_none = ''difference'' \<and> m_level difference_none \<noteq> - 1 \<and>
    size_children difference_none = 0) \<and>
   to_xcsg example_ops True difference_none = Inr (difference_none, []) \<and>
   (tag minkowski_one = ''minkowski'' \<and> m_level minkowski_one \<noteq> - 1 \<and>
    length (m_children minkowski_one) < 2 \<and> dimension minkowski_one = Inr 3) \<and>
   to_xcsg example_ops True minkowski_one =
     Inl (fewer_than_2 minkowski_one ''minkowski'' ''minkowski3d'')"
proof -
  have h1: "tag difference_none = ''difference''" "m_level difference_none \<noteq> - 1"
    "size_children difference_none = 0"
    by (simp_all add: difference_none_def example_eval)
  have h2: "tag minkowski_one = ''minkowski''" "m_level minkowski_one \<noteq> - 1"
    "length (m_children minkowski_one) < 2" "dimension minkowski_one = Inr 3"
    by (simp_all add: minkowski_one_def cube_234_def example_eval)
  from C5_fewer_than_two_children [where n = difference_none and V = example_ops and parent_ok = True]
       C5_fewer_than_two_children [where n = minkowski_one and V = example_ops and d = 3] h1 h2
  show ?thesis by simp
qed

theorem C5_no_error_counterexample:
  "size_children difference_none = 0 \<and>
   to_xcsg example_ops True difference_none = Inr (difference_none, []) \<and>
   size_children minkowski_padded = 1 \<and>
   map_sum id snd (to_xcsg example_ops True minkowski_padded) =
     Inr [Xml_node ''minkowski3d'' []
            [Xml_node ''cuboid''
               [(''dx'', Xml_number 2), (''dy'', Xml_number 3), (''dz'', Xml_number 4),
                (''center'', Xml_string ''true'')] []]]"
  by (simp add: difference_none_def minkowski_padded_def cube_234_def example_eval encode_cuboid_def)

subsection \<open>Mixed dimensions\<close>

lemma child_of_dimension_Cons:
  "child_of_dimension (c # cs) k \<longleftrightarrow>
     (\<not> is_dummy c \<and> dimension c = Inr k) \<or> child_of_dimension cs k"
  by (simp add: child_of_dimension_def)

lemma mixed_dimension_check_iff:
  assumes "list_all (\<lambda>c. is_dummy c \<or> (\<exists>k. dimension c = Inr k)) cs"
    and "dims = [] \<or> dims = [2] \<or> dims = [3]"
  shows "mixed_dimension_check cs dims mixed =
           (if (2 \<in> set dims \<or> child_of_dimension cs 2) \<and> (3 \<in> set dims \<or> child_of_dimension cs 3)
            then Inl mixed else Inr ())"
  using assms
proof (induction cs arbitrary: dims)
  case Nil
  then show ?case by (auto simp: child_of_dimension_def)
next
  case (Cons c cs)
  from Cons.prems(1) have rest: "list_all (\<lambda>c. is_dummy c \<or> (\<exists>k. dimension c = Inr k)) cs"
    by simp
  show ?case
  proof (cases "is_dummy c")
    case True
    with Cons.IH [OF rest Cons.prems(2)] show ?thesis
      by (simp add: child_of_dimension_Cons)
  next
    case False
    with Cons.prems(1) obtain k where k: "dimension c = Inr k" by auto
    then have k023: "k = 0 \<or> k = 2 \<or> k = 3" by (rule dimension_range)
    let ?dims = "if k > 0 then List.insert k dims else dims"
    have step: "mixed_dimension_check (c # cs) dims mixed =
        (if length ?dims > 1 then Inl mixed else mixed_dimension_check cs ?dims mixed)"
      using False k by simp
    show ?thesis
    proof (cases "length ?dims > 1")
      case True
      with k023 Cons.prems(2) have "(k = 2 \<and> dims = [3]) \<or> (k = 3 \<and> dims = [2])"
        by (auto split: if_splits)
      with True False k show ?thesis
        unfolding step by (auto simp: child_of_dimension_Cons)
    next
      case short: False
      with k023 Cons.prems(2) have d': "?dims = [] \<or> ?dims = [2] \<or> ?dims = [3]"
        by (auto split: if_splits)
      have "set ?dims = set dims \<union> (if k > 0 then {k} else {})"
        by simp
      with Cons.IH [OF rest d'] short False k k023 show ?thesis
        unfolding step by (auto simp: child_of_dimension_Cons split: if_splits)
    qed
  qed
qed

lemma child_of_dimension_two:
  assumes "child_of_dimension cs 2" and "child_of_dimension cs 3"
  shows "2 \<le> length (filter (\<lambda>c. \<not> is_dummy c) cs)"
proof -
  from assms obtain c2 c3 where
    c2: "c2 \<in> set cs" "\<not> is_dummy c2" "dimension c2 = Inr 2" and
    c3: "c3 \<in> set cs" "\<not> is_dummy c3" "dimension c3 = Inr 3"
    by (auto simp: child_of_dimension_def list_ex_iff)
  then have ne: "c2 \<noteq> c3" by auto
  have "{c2, c3} \<subseteq> set (filter (\<lambda>c. \<not> is_dummy c) cs)"
    using c2 c3 by simp
  then have "card {c2, c3} \<le> card (set (filter (\<lambda>c. \<not> is_dummy c) cs))"
    by (intro card_mono) auto
  also have "\<dots> \<le> length (filter (\<lambda>c. \<not> is_dummy c) cs)"
    by (rule card_length)
  finally show ?thesis using ne by simp
qed

lemma fewer_than_2_not_mixed: "fewer_than_2 n t x \<noteq> mixed_dimension n t y"
  by (simp add: fewer_than_2_def mixed_dimension_def)


text \<open>
  C7 (amended): for a node of the boolean family below the root whose dimension is
  not 0 and whose counted children all have a dimension (none of them throws): when
  one counted child has dimension 2 and another dimension 3 the conversion fails with
  the mixed dimension error that names the operator and the output tag; otherwise the
  node does not raise that error.
\<close>

theorem C7_mixed_dimension:
  assumes "tag n = ''difference'' \<or> tag n = ''intersection'' \<or> tag n = ''minkowski'' \<or>
           tag n = ''union'' \<or> tag n = ''hull''"
    and "m_level n \<noteq> - 1" and "dimension n = Inr d" and "d \<noteq> 0"
    and "list_all (\<lambda>c. is_dummy c \<or> (\<exists>k. dimension c = Inr k)) (m_children n)"
  shows "(child_of_dimension (m_children n) 2 \<and> child_of_dimension (m_children n) 3 \<longrightarrow>
            to_xcsg V True n =
              Inl (mixed_dimension n (tag n) (tag n @ (if d = 2 then ''2d'' else ''3d'')))) \<and>
         (\<not> (child_of_dimension (m_children n) 2 \<and> child_of_dimension (m_children n) 3) \<longrightarrow>
            (\<forall>xt. to_xcsg_this V True n \<noteq> Inl (mixed_dimension n (tag n) xt)))"
proof (intro conjI impI allI)
  let ?xt = "tag n @ (if d = 2 then ''2d'' else ''3d'')"
  assume mixed: "child_of_dimension (m_children n) 2 \<and> child_of_dimension (m_children n) 3"
  then have two: "2 \<le> length (filter (\<lambda>c. \<not> is_dummy c) (m_children n))"
    by (simp add: child_of_dimension_two)
  then have "size_children n \<noteq> 1" by (simp add: size_children_filter)
  then have scf: "single_child_fix n ?xt = ?xt"
    by (simp add: single_child_fix_def)
  have "length (filter (\<lambda>c. \<not> is_dummy c) (m_children n)) \<le> length (m_children n)"
    by (rule length_filter_le)
  with two have len: "\<not> length (m_children n) < 2" by linarith
  have "mixed_dimension_check (m_children n) [] (mixed_dimension n (tag n) ?xt) =
      Inl (mixed_dimension n (tag n) ?xt)"
    using mixed by (simp add: mixed_dimension_check_iff [OF assms(5)])
  then have "encode_boolean n (tag n) ?xt = Inl (mixed_dimension n (tag n) ?xt)"
    using len by (simp add: encode_boolean_def)
  then have "to_xcsg_this V True n = Inl (mixed_dimension n (tag n) ?xt)"
    unfolding to_xcsg_this_boolean [OF assms(1,3,4)] scf by simp
  with assms(2) show "to_xcsg V True n = Inl (mixed_dimension n (tag n) ?xt)"
    by (cases n) simp
next
  fix xt
  let ?xt = "single_child_fix n (tag n @ (if d = 2 then ''2d'' else ''3d''))"
  assume "\<not> (child_of_dimension (m_children n) 2 \<and> child_of_dimension (m_children n) 3)"
  then have "mixed_dimension_check (m_children n) [] m = Inr ()" for m
    by (auto simp: mixed_dimension_check_iff [OF assms(5)])
  then have "encode_boolean n (tag n) ?xt = Inl (fewer_than_2 n (tag n) ?xt) \<or>
      encode_boolean n (tag n) ?xt = Inr (Xml_node ?xt [] [])"
    by (simp add: encode_boolean_def)
  then show "to_xcsg_this V True n \<noteq> Inl (mixed_dimension n (tag n) xt)"
    unfolding to_xcsg_this_boolean [OF assms(1,3,4)]
    by (auto simp: fewer_than_2_not_mixed)
qed

theorem C7_mixed_dimension_witness:
  "(tag union_mixed = ''union'' \<and> m_level union_mixed \<noteq> - 1 \<and> dimension union_mixed = Inr 3 \<and>
    list_all (\<lambda>c. is_dummy c \<or> (\<exists>k. dimension c = Inr k)) (m_children union_mixed) \<and>
    child_of_dimension (m_children union_mixed) 2 \<and> child_of_dimension (m_children union_mixed) 3) \<and>
   to_xcsg example_ops True union_mixed = Inl (mixed_dimension union_mixed ''union'' ''union3d'') \<and>
   (tag difference_one = ''difference'' \<and> m_level difference_one \<noteq> - 1 \<and>
    dimension difference_one = Inr 3 \<and>
    list_all (\<lambda>c. is_dummy c \<or> (\<exists>k. dimension c = Inr k)) (m_children difference_one) \<and>
    \<not> child_of_dimension (m_children difference_one) 2) \<and>
   to_xcsg_this example_ops True difference_one \<noteq>
     Inl (mixed_dimension difference_one ''difference'' ''difference3d'')"
proof -
  have ch1: "m_children union_mixed = [cube_234, circle_unit]"
    by (simp add: union_mixed_def example_node_def)
  have ch2: "m_children difference_one = [cube_234]"
    by (simp add: difference_one_def example_node_def)
  have nd: "\<not> is_dummy cube_234" "\<not> is_dummy circle_unit"
    by (simp_all add: cube_234_def circle_unit_def example_eval)
  have h1: "tag union_mixed = ''union''" "m_level union_mixed \<noteq> - 1"
    "dimension union_mixed = Inr 3"
    by (simp_all add: union_mixed_def cube_234_def circle_unit_def example_eval)
  have k1: "list_all (\<lambda>c. is_dummy c \<or> (\<exists>k. dimension c = Inr k)) (m_children union_mixed)"
    "child_of_dimension (m_children union_mixed) 2" "child_of_dimension (m_children union_mixed) 3"
    by (simp_all add: ch1 child_of_dimension_def nd dimension_cube_234 dimension_circle_unit)
  have h2: "tag difference_one = ''difference''" "m_level difference_one \<noteq> - 1"
    "dimension difference_one = Inr 3"
    by (simp_all add: difference_one_def cube_234_def example_eval)
  have k2: "list_all (\<lambda>c. is_dummy c \<or> (\<exists>k. dimension c = Inr k)) (m_children difference_one)"
    "\<not> child_of_dimension (m_children difference_one) 2"
    by (simp_all add: ch2 child_of_dimension_def nd dimension_cube_234)
  have three: "(3::nat) \<noteq> 0" by simp
  from C7_mixed_dimension [of union_mixed 3 example_ops, OF _ h1(2,3) three k1(1)] h1(1) k1(2,3)
  have r1: "to_xcsg example_ops True union_mixed = Inl (mixed_dimension union_mixed ''union'' ''union3d'')"
    by simp
  from C7_mixed_dimension [of difference_one 3 example_ops, OF _ h2(2,3) three k2(1)] h2(1) k2(2)
  have r2: "to_xcsg_this example_ops True difference_one \<noteq>
     Inl (mixed_dimension difference_one ''difference'' ''difference3d'')"
    by simp
  from h1 k1 r1 h2 k2 r2 show ?thesis by simp
qed

theorem C7_skipped_counterexample:
  "tag union_unknown = ''union'' \<and>
   child_of_dimension (m_children union_unknown) 2 \<and>
   child_of_dimension (m_children union_unknown) 3 \<and>
   to_xcsg example_ops True union_unknown = Inr (union_unknown, [])"
  by (simp add: union_unknown_def child_of_dimension_def cube_234_def circle_unit_def example_eval)

end
